theory Spec2Isabelle
  imports Main "HOL-Library.Sublist"
begin

section \<open>Strings\<close>

text \<open>
  Python \<open>str\<close> values are modelled as \<open>string\<close>; a character outside ASCII
  stands as its UTF-8 bytes. The test \<open>keyword in message\<close> is the
  contiguous-substring test \<open>str_in\<close> (the keywords are ASCII, so an occurrence among
  the bytes is an occurrence among the code points). \<open>str.lower()\<close> follows the
  Unicode tables and is not modelled: the classifier takes the lower-casing function as
  the parameter \<open>lower\<close>. On a string of ASCII characters \<open>str.lower()\<close> is
  \<open>ascii_lower\<close>, which the concrete runs below use on their ASCII messages.
\<close>

definition lower_char :: "char \<Rightarrow> char" where
  "lower_char c =
     (case map_of (zip ''ABCDEFGHIJKLMNOPQRSTUVWXYZ'' ''abcdefghijklmnopqrstuvwxyz'') c of
        Some d \<Rightarrow> d
      | None \<Rightarrow> c)"

definition ascii_lower :: "string \<Rightarrow> string" where
  "ascii_lower s = map lower_char s"

fun str_in :: "string \<Rightarrow> string \<Rightarrow> bool" where
  "str_in k [] = (k = [])"
| "str_in k (c # cs) = (prefix k (c # cs) \<or> str_in k cs)"

text \<open>\<open>any(keyword in message for keyword in keywords)\<close>\<close>

definition any_keyword :: "string list \<Rightarrow> string \<Rightarrow> bool" where
  "any_keyword keywords message = list_ex (\<lambda>keyword. str_in keyword message) keywords"

section \<open>Data model\<close>

text \<open>
  Modelled from the spec: the classes \<open>TaskDefinition\<close>, \<open>ErrorRecord\<close> and
  \<open>GraphState\<close> of \<open>core/state.py\<close>, which is not among the sources. The fields
  are those of the specification's data model, under the names the nodes and the tests
  use (\<open>task_plan\<close>, \<open>agent_results\<close>, \<open>error_log\<close>, \<open>query_complexity\<close>); a
  new task is pending and a new error record has \<open>retry_count = 0\<close>, as the tests
  check. The fields \<open>task_id\<close>, \<open>agent\<close> and \<open>tool\<close> of an \<open>ErrorRecord\<close>
  carry the prefix \<open>e_\<close> here. Timestamps are left out.
\<close>

datatype task_status = Pending | Running | Completed | Failed

record TaskDefinition =
  task_id :: string
  agent :: string
  tool :: string
  inputs :: "(string \<times> string) list"
  depends_on :: "string option"
  status :: task_status

record ErrorRecord =
  e_task_id :: string
  e_agent :: string
  e_tool :: string
  error_type :: string
  error_message :: string
  retry_count :: int

record 'r GraphState =
  original_query :: string
  session_id :: string
  query_complexity :: "string option"
  task_plan :: "TaskDefinition list"
  agent_results :: "string \<rightharpoonup> 'r"
  error_log :: "ErrorRecord list"
  final_answer :: string

text \<open>\<open>GraphState(original_query=query, session_id=session_id)\<close>, as the tests check it.\<close>

definition initial_state :: "string \<Rightarrow> string \<Rightarrow> 'r GraphState" where
  "initial_state query sid =
     \<lparr>original_query = query, session_id = sid, query_complexity = None, task_plan = [],
      agent_results = Map.empty, error_log = [], final_answer = []\<rparr>"

text \<open>
  An agent's \<open>execute_task(state, task)\<close> either returns a result or raises; \<open>Inl\<close>
  carries \<open>str(e)\<close> of the exception.
\<close>

type_synonym 'r agent_fn = "'r GraphState \<Rightarrow> TaskDefinition \<Rightarrow> string + 'r"

subsection \<open>Methods of the state\<close>

text \<open>
  Modelled from the spec: \<open>GraphState.add_error\<close> of \<open>core/state.py\<close>, which is
  not among the sources. The error log is append-only and chronological; the record
  gets the given fields, and \<open>retry_count\<close> is 0 unless the caller passes one.
\<close>

definition add_error ::
  "'r GraphState \<Rightarrow> string \<Rightarrow> string \<Rightarrow> string \<Rightarrow> string \<Rightarrow> string \<Rightarrow> int \<Rightarrow> 'r GraphState" where
  "add_error state tid agent_name tool_name etype msg rc =
     state\<lparr>error_log := error_log state @
       [\<lparr>e_task_id = tid, e_agent = agent_name, e_tool = tool_name, error_type = etype,
         error_message = msg, retry_count = rc\<rparr>]\<rparr>"

text \<open>
  Modelled from the spec: \<open>GraphState.get_pending_tasks\<close> of \<open>core/state.py\<close>, which
  is not among the sources: the tasks whose status is pending, in plan order. The
  returned objects are the task objects of the plan, so each comes with its position in
  \<open>task_plan\<close>, which stands for the object's identity.
\<close>

definition get_pending_tasks :: "'r GraphState \<Rightarrow> (nat \<times> TaskDefinition) list" where
  "get_pending_tasks state =
     filter (\<lambda>(i, task). status task = Pending) (enumerate 0 (task_plan state))"

text \<open>
  Modelled from the spec: \<open>GraphState.get_task_by_id\<close> of \<open>core/state.py\<close>, which is
  not among the sources: the first task of the plan with that id, or \<open>None\<close>.
\<close>

definition get_task_by_id :: "'r GraphState \<Rightarrow> string \<Rightarrow> TaskDefinition option" where
  "get_task_by_id state tid = find (\<lambda>task. task_id task = tid) (task_plan state)"

text \<open>
  \<open>task = state.get_task_by_id(tid); if task: task.status = st\<close>: the assignment
  changes, in place, the first task of the plan with that id.
\<close>

fun update_first :: "('a \<Rightarrow> bool) \<Rightarrow> ('a \<Rightarrow> 'a) \<Rightarrow> 'a list \<Rightarrow> 'a list" where
  "update_first P f [] = []"
| "update_first P f (x # xs) = (if P x then f x # xs else x # update_first P f xs)"

definition set_status_by_id :: "'r GraphState \<Rightarrow> string \<Rightarrow> task_status \<Rightarrow> 'r GraphState" where
  "set_status_by_id state tid st =
     state\<lparr>task_plan :=
       update_first (\<lambda>task. task_id task = tid) (\<lambda>task. task\<lparr>status := st\<rparr>) (task_plan state)\<rparr>"

text \<open>
  Modelled from the spec: \<open>GraphState.mark_task_completed\<close> and
  \<open>GraphState.mark_task_failed\<close> of \<open>core/state.py\<close>, which is not among the sources.
  On success the task's status is completed and \<open>results[task_id] = value\<close>; on failure
  the status is failed.
\<close>

definition mark_task_completed :: "'r GraphState \<Rightarrow> string \<Rightarrow> 'r \<Rightarrow> 'r GraphState" where
  "mark_task_completed state tid result =
     (set_status_by_id state tid Completed)\<lparr>agent_results := (agent_results state)(tid \<mapsto> result)\<rparr>"

definition mark_task_failed :: "'r GraphState \<Rightarrow> string \<Rightarrow> 'r GraphState" where
  "mark_task_failed state tid = set_status_by_id state tid Failed"

text \<open>
  \<open>GraphState.has_critical_errors\<close> is a method of \<open>core/state.py\<close> too, and the
  specification leaves the predicate open. The nodes below take it as the parameter
  \<open>critical\<close>. The only critical categories the sources name are the two that
  \<open>_analyze_error_patterns\<close> of \<open>remediation.py\<close> counts; the concrete runs below
  use them.
\<close>

definition critical_errors_count :: "'r GraphState \<Rightarrow> nat" where
  "critical_errors_count state =
     length (filter (\<lambda>e. error_type e \<in> set [''UNRECOVERABLE_ERROR'', ''AUTH_FAILURE''])
       (error_log state))"

definition placeholder_critical :: "'r GraphState \<Rightarrow> bool" where
  "placeholder_critical state = (0 < critical_errors_count state)"

section \<open>Executor (nodes/executor.py)\<close>

definition classify_error :: "(string \<Rightarrow> string) \<Rightarrow> string \<Rightarrow> string" where
  "classify_error lower error =
     (let error_message = lower error in
      if any_keyword [''timeout'', ''connection'', ''network''] error_message
        then ''NETWORK_ERROR''
      else if any_keyword [''rate limit'', ''quota'', ''too many requests''] error_message
        then ''RATE_LIMIT_ERROR''
      else if any_keyword [''unauthorized'', ''authentication'', ''api key''] error_message
        then ''AUTH_ERROR''
      else if any_keyword [''invalid'', ''not found'', ''does not exist''] error_message
        then ''INVALID_INPUT''
      else if any_keyword [''agent'', ''tool''] error_message
        then ''AGENT_ERROR''
      else if any_keyword [''hallucination'', ''format'', ''parsing''] error_message
        then ''LLM_ERROR''
      else ''UNKNOWN_ERROR'')"

text \<open>
  \<open>not task.depends_on or task.depends_on in completed_task_ids\<close>: \<open>None\<close> and the
  empty string are both falsy in Python.
\<close>

definition dependencies_satisfied :: "'r GraphState \<Rightarrow> TaskDefinition \<Rightarrow> bool" where
  "dependencies_satisfied state task =
     (case depends_on task of
        None \<Rightarrow> True
      | Some d \<Rightarrow> d = [] \<or> agent_results state d \<noteq> None)"

definition get_next_executable_task ::
  "'r GraphState \<Rightarrow> (nat \<times> TaskDefinition) list \<Rightarrow> (nat \<times> TaskDefinition) option" where
  "get_next_executable_task state pending_tasks =
     find (\<lambda>(i, task). dependencies_satisfied state task) pending_tasks"

text \<open>\<open>get_agent\<close> of \<open>agents/base.py\<close>; the global registry is a parameter.\<close>

definition get_agent :: "(string \<rightharpoonup> 'a) \<Rightarrow> string \<Rightarrow> 'a option" where
  "get_agent registry name = (if name \<in> dom registry then registry name else None)"

definition agent_not_found :: "string \<Rightarrow> string" where
  "agent_not_found name = ''Agent '' @ [CHR 0x27] @ name @ [CHR 0x27] @ '' not found''"

text \<open>\<open>current_task.status = "running"\<close>, on the task object at position \<open>i\<close>.\<close>

definition start_task :: "'r GraphState \<Rightarrow> nat \<Rightarrow> 'r GraphState" where
  "start_task state i =
     state\<lparr>task_plan := (task_plan state)[i := (task_plan state ! i)\<lparr>status := Running\<rparr>]\<rparr>"

text \<open>The body of the \<open>try\<close> block after the task is marked running.\<close>

definition dispatch ::
  "(string \<rightharpoonup> 'r agent_fn) \<Rightarrow> 'r GraphState \<Rightarrow> TaskDefinition \<Rightarrow> string + 'r" where
  "dispatch registry state current_task =
     (case get_agent registry (agent current_task) of
        None \<Rightarrow> Inl (agent_not_found (agent current_task))
      | Some a \<Rightarrow> a state current_task)"

text \<open>
  A node returns the state as it has mutated it, and the keys of the update dictionary
  it returns (whose values are those fields of the mutated state).
\<close>

definition agent_executor_node ::
  "(string \<Rightarrow> string) \<Rightarrow> (string \<rightharpoonup> 'r agent_fn) \<Rightarrow> 'r GraphState \<Rightarrow> 'r GraphState \<times> string list" where
  "agent_executor_node lower registry state =
     (let pending_tasks = get_pending_tasks state in
      if pending_tasks = [] then (state, [])
      else
        case get_next_executable_task state pending_tasks of
          None \<Rightarrow> (state, [])
        | Some (i, current_task) \<Rightarrow>
            let running = start_task state i in
            (case dispatch registry running (task_plan running ! i) of
               Inr result \<Rightarrow>
                 (mark_task_completed running (task_id current_task) result,
                  [''agent_results'', ''task_plan''])
             | Inl e \<Rightarrow>
                 (add_error (mark_task_failed running (task_id current_task))
                    (task_id current_task) (agent current_task) (tool current_task)
                    (classify_error lower e) e 0,
                  [''error_log'', ''task_plan''])))"

definition should_retry_task :: "'r GraphState \<Rightarrow> string \<Rightarrow> bool" where
  "should_retry_task state tid =
     (let task_errors = filter (\<lambda>error. e_task_id error = tid) (error_log state) in
      if task_errors = [] then False
      else
        let latest_error = last task_errors in
        if retry_count latest_error \<ge> 3 then False
        else error_type latest_error \<in> set [''NETWORK_ERROR'', ''RATE_LIMIT_ERROR'', ''TIMEOUT_ERROR''])"

section \<open>Remediation (nodes/remediation.py)\<close>

definition determine_remediation_action ::
  "('r GraphState \<Rightarrow> bool) \<Rightarrow> 'r GraphState \<Rightarrow> ErrorRecord \<Rightarrow> string" where
  "determine_remediation_action critical state error =
     (if critical state then ''complete''
      else if error_type error \<in> set [''API_TIMEOUT'', ''NETWORK_ERROR''] \<and> retry_count error < 3
        then ''retry''
      else if error_type error = ''INVALID_STOCK_CODE'' \<and> length (task_plan state) > 1
        then ''replan''
      else if error_type error \<in> set [''AGENT_HALLUCINATION'', ''LLM_ERROR''] \<and> retry_count error < 2
        then ''retry''
      else if get_pending_tasks state \<noteq> [] then ''continue''
      else ''complete'')"

text \<open>
  In the handlers \<open>error\<close> is \<open>state.error_log[-1]\<close>, the object the node passes;
  \<open>error.retry_count += 1\<close> changes that last record of the log in place.
\<close>

definition handle_retry :: "'r GraphState \<Rightarrow> ErrorRecord \<Rightarrow> 'r GraphState \<times> string list" where
  "handle_retry state error =
     (case get_task_by_id state (e_task_id error) of
        None \<Rightarrow> (state, [''task_plan'', ''error_log''])
      | Some task \<Rightarrow>
          let state1 = set_status_by_id state (e_task_id error) Pending;
              error1 = error\<lparr>retry_count := retry_count error + 1\<rparr>;
              state2 = state1\<lparr>error_log := butlast (error_log state1) @ [error1]\<rparr>
          in (add_error state2 (e_task_id error1) (e_agent error1) (e_tool error1)
                ''RETRY_ATTEMPT'' (''Retrying task due to '' @ error_type error1)
                (retry_count error1),
              [''task_plan'', ''error_log'']))"

definition handle_replan :: "'r GraphState \<Rightarrow> ErrorRecord \<Rightarrow> 'r GraphState \<times> string list" where
  "handle_replan state error =
     (let state1 = set_status_by_id state (e_task_id error) Failed;
          state2 = state1\<lparr>task_plan := []\<rparr>
      in (add_error state2 ''replanning'' ''remediation'' ''replan'' ''REPLAN_TRIGGERED''
            (''Replanning triggered by '' @ error_type error @ '' in task '' @ e_task_id error) 0,
          [''task_plan'', ''error_log'']))"

definition handle_continue :: "'r GraphState \<Rightarrow> ErrorRecord \<Rightarrow> 'r GraphState \<times> string list" where
  "handle_continue state error =
     (let state1 = set_status_by_id state (e_task_id error) Failed
      in (add_error state1 (e_task_id error) ''remediation'' ''continue'' ''TASK_SKIPPED''
            (''Skipping task '' @ e_task_id error @ '' due to unrecoverable '' @ error_type error) 0,
          [''task_plan'', ''error_log'']))"

definition handle_complete :: "'r GraphState \<Rightarrow> ErrorRecord \<Rightarrow> 'r GraphState \<times> string list" where
  "handle_complete state error =
     (let state1 = state\<lparr>task_plan :=
            map (\<lambda>task. if status task = Pending then task\<lparr>status := Failed\<rparr> else task)
              (task_plan state)\<rparr>
      in (add_error state1 ''completion'' ''remediation'' ''complete'' ''FORCED_COMPLETION''
            ''Completing processing due to critical errors or max retries reached'' 0,
          [''task_plan'', ''error_log'']))"

definition remediation_node ::
  "('r GraphState \<Rightarrow> bool) \<Rightarrow> 'r GraphState \<Rightarrow> 'r GraphState \<times> string list" where
  "remediation_node critical state =
     (if error_log state = [] then (state, [])
      else
        let latest_error = last (error_log state);
            remediation_action = determine_remediation_action critical state latest_error
        in if remediation_action = ''retry'' then handle_retry state latest_error
           else if remediation_action = ''replan'' then handle_replan state latest_error
           else if remediation_action = ''continue'' then handle_continue state latest_error
           else handle_complete state latest_error)"

section \<open>Planner (nodes/planner.py)\<close>

text \<open>
  What the planner collaborator answers: the call (or the parsing of its answer) raises,
  the answer has no function call, or it carries the task specifications.
\<close>

record task_data =
  td_task_id :: string
  td_agent :: string
  td_tool :: string
  td_inputs :: "(string \<times> string) list"
  td_depends_on :: "string option"

datatype planner_response = PlanRaises string | NoFunctionCall | FunctionCall "task_data list"

definition make_task :: "task_data \<Rightarrow> TaskDefinition" where
  "make_task d =
     \<lparr>task_id = td_task_id d, agent = td_agent d, tool = td_tool d, inputs = td_inputs d,
      depends_on = td_depends_on d, status = Pending\<rparr>"

text \<open>
  The names of the knowledge agent and of its tool are Chinese in the source; they are
  written here as their UTF-8 bytes.
\<close>

definition knowledge_agent_name :: string where
  "knowledge_agent_name =
     [CHR 0xE7, CHR 0x9F, CHR 0xA5, CHR 0xE8, CHR 0xAF, CHR 0x86, CHR 0xE5, CHR 0xBA, CHR 0x93]
     @ ''agent''"

definition knowledge_tool_name :: string where
  "knowledge_tool_name =
     [CHR 0xE9, CHR 0x87, CHR 0x91, CHR 0xE8, CHR 0x9E, CHR 0x8D, CHR 0xE7, CHR 0x9F, CHR 0xA5,
      CHR 0xE8, CHR 0xAF, CHR 0x86, CHR 0xE6, CHR 0x9F, CHR 0xA5, CHR 0xE8, CHR 0xAF, CHR 0xA2]"

definition create_fallback_plan :: "string \<Rightarrow> TaskDefinition list" where
  "create_fallback_plan query =
     [\<lparr>task_id = ''fallback_task_1'', agent = knowledge_agent_name, tool = knowledge_tool_name,
       inputs = [(''query'', query)], depends_on = None, status = Pending\<rparr>]"

definition planner_failed :: "'r GraphState \<Rightarrow> string \<Rightarrow> 'r GraphState \<times> string list" where
  "planner_failed state e =
     (add_error (state\<lparr>task_plan := create_fallback_plan (original_query state)\<rparr>)
        ''planning'' ''planner'' ''llm_planning'' ''PLANNING_ERROR'' e 0,
      [''task_plan''])"

definition planner_node :: "planner_response \<Rightarrow> 'r GraphState \<Rightarrow> 'r GraphState \<times> string list" where
  "planner_node response state =
     (case response of
        FunctionCall tasks \<Rightarrow> (state\<lparr>task_plan := map make_task tasks\<rparr>, [''task_plan''])
      | NoFunctionCall \<Rightarrow> planner_failed state ''LLM did not return a valid function call''
      | PlanRaises e \<Rightarrow> planner_failed state e)"

definition validate_task_plan :: "TaskDefinition list \<Rightarrow> bool" where
  "validate_task_plan tasks =
     (let task_ids = map task_id tasks in
      if length task_ids \<noteq> length (remdups task_ids) then False
      else if list_ex (\<lambda>task. (case depends_on task of None \<Rightarrow> False
                                 | Some d \<Rightarrow> d \<noteq> [] \<and> d \<notin> set task_ids)) tasks then False
      else if list_ex (\<lambda>task. depends_on task = Some (task_id task)) tasks then False
      else True)"

section \<open>Router (nodes/router.py)\<close>

text \<open>
  The classifier collaborator raises (\<open>Inl\<close>) or answers; \<open>Inr\<close> carries
  \<open>response.content.strip().upper()\<close>.
\<close>

definition router_node :: "string + string \<Rightarrow> 'r GraphState \<Rightarrow> 'r GraphState \<times> string list" where
  "router_node response state =
     (case response of
        Inr answered \<Rightarrow>
          let classification =
                (if answered \<notin> set [''SIMPLE'', ''COMPLEX'', ''OOS''] then ''COMPLEX'' else answered)
          in (state\<lparr>query_complexity := Some classification\<rparr>, [''query_complexity''])
      | Inl e \<Rightarrow>
          (add_error (state\<lparr>query_complexity := Some ''COMPLEX''\<rparr>)
             ''router_classification'' ''router'' ''llm_classification'' ''CLASSIFICATION_ERROR'' e 0,
           [''query_complexity'']))"

section \<open>The graph (core/graph.py)\<close>

datatype node = Router | Planner | AgentExecutor | Remediation | AnswerGenerator | Fallback | END

definition route_after_classification :: "'r GraphState \<Rightarrow> string" where
  "route_after_classification state =
     (if query_complexity state = Some ''SIMPLE'' then ''simple''
      else if query_complexity state = Some ''COMPLEX'' then ''complex''
      else ''oos'')"

definition route_after_execution :: "'r GraphState \<Rightarrow> string" where
  "route_after_execution state =
     (if error_log state \<noteq> [] \<and> retry_count (last (error_log state)) = 0 then ''error''
      else if get_pending_tasks state \<noteq> [] then ''continue''
      else ''complete'')"

definition route_after_remediation :: "('r GraphState \<Rightarrow> bool) \<Rightarrow> 'r GraphState \<Rightarrow> string" where
  "route_after_remediation critical state =
     (if error_log state = [] then ''complete''
      else
        let latest_error = last (error_log state) in
        if critical state then ''complete''
        else if error_type latest_error \<in> set [''API_TIMEOUT'', ''NETWORK_ERROR'']
                \<and> retry_count latest_error < 3 then ''retry''
        else if error_type latest_error = ''INVALID_STOCK_CODE'' \<and> length (task_plan state) > 1
          then ''replan''
        else if get_pending_tasks state \<noteq> [] then ''continue''
        else ''complete'')"

text \<open>
  \<open>add_conditional_edges(source, route, mapping)\<close>: the node that follows is
  \<open>mapping[route(state)]\<close>.
\<close>

definition conditional_edge :: "(string \<times> node) list \<Rightarrow> string \<Rightarrow> node" where
  "conditional_edge mapping r = (case map_of mapping r of Some n \<Rightarrow> n | None \<Rightarrow> END)"

definition after_router :: "'r GraphState \<Rightarrow> node" where
  "after_router state =
     conditional_edge
       [(''simple'', AgentExecutor), (''complex'', Planner), (''oos'', Fallback)]
       (route_after_classification state)"

definition after_executor :: "'r GraphState \<Rightarrow> node" where
  "after_executor state =
     conditional_edge
       [(''continue'', AgentExecutor), (''error'', Remediation), (''complete'', AnswerGenerator)]
       (route_after_execution state)"

definition after_remediation :: "('r GraphState \<Rightarrow> bool) \<Rightarrow> 'r GraphState \<Rightarrow> node" where
  "after_remediation critical state =
     conditional_edge
       [(''retry'', AgentExecutor), (''replan'', Planner), (''continue'', AgentExecutor),
        (''complete'', AnswerGenerator)]
       (route_after_remediation critical state)"

text \<open>
  The collaborators of one workflow, the lower-casing of strings and the critical-error
  predicate.
\<close>

record 'r env =
  lowercase :: "string \<Rightarrow> string"
  classifier :: "string \<Rightarrow> string + string"
  planner :: "'r GraphState \<Rightarrow> planner_response"
  registry :: "string \<rightharpoonup> 'r agent_fn"
  critical :: "'r GraphState \<Rightarrow> bool"

text \<open>
  One step of the compiled graph: run the node, then follow its edge. The answer
  generator and the fallback node are the terminal nodes; their bodies (the synthesis of
  the answer text) are not modelled, a run ends when it reaches one of them.
\<close>

fun step :: "'r env \<Rightarrow> node \<times> 'r GraphState \<Rightarrow> node \<times> 'r GraphState" where
  "step env (Router, state) =
     (let state' = fst (router_node (classifier env (original_query state)) state)
      in (after_router state', state'))"
| "step env (Planner, state) =
     (let state' = fst (planner_node (planner env state) state)
      in (AgentExecutor, state'))"
| "step env (AgentExecutor, state) =
     (let state' = fst (agent_executor_node (lowercase env) (registry env) state)
      in (after_executor state', state'))"
| "step env (Remediation, state) =
     (let state' = fst (remediation_node (critical env) state)
      in (after_remediation (critical env) state', state'))"
| "step env (AnswerGenerator, state) = (END, state)"
| "step env (Fallback, state) = (END, state)"
| "step env (END, state) = (END, state)"

definition terminal :: "node \<Rightarrow> bool" where
  "terminal n = (n = AnswerGenerator \<or> n = Fallback \<or> n = END)"

text \<open>\<open>invoke\<close>: steps until a terminal node is reached; \<open>None\<close> when the fuel runs out.\<close>

fun run :: "nat \<Rightarrow> 'r env \<Rightarrow> node \<times> 'r GraphState \<Rightarrow> (node \<times> 'r GraphState) option" where
  "run fuel env (n, state) =
     (if terminal n then Some (n, state)
      else case fuel of
             0 \<Rightarrow> None
           | Suc fuel' \<Rightarrow> run fuel' env (step env (n, state)))"

definition invoke :: "nat \<Rightarrow> 'r env \<Rightarrow> string \<Rightarrow> string \<Rightarrow> (node \<times> 'r GraphState) option" where
  "invoke fuel env query sid = run fuel env (Router, initial_state query sid)"

section \<open>The error taxonomy as a priority table\<close>

text \<open>
  "First match wins": the table is read in order, and the first row one of whose
  keywords occurs in the message gives the type. \<open>sublist k m\<close> says that \<open>k\<close>
  occurs in \<open>m\<close> as a contiguous piece.
\<close>

fun first_match :: "(string list \<times> string) list \<Rightarrow> string \<Rightarrow> string" where
  "first_match [] message = ''UNKNOWN_ERROR''"
| "first_match ((keywords, etype) # table) message =
     (if \<exists>keyword \<in> set keywords. sublist keyword message then etype
      else first_match table message)"

text \<open>The keyword groups as the specification lists them.\<close>

definition spec_keyword_table :: "(string list \<times> string) list" where
  "spec_keyword_table =
     [([''timeout'', ''connection'', ''network''], ''NETWORK_ERROR''),
      ([''rate limit'', ''quota''], ''RATE_LIMIT_ERROR''),
      ([''unauthorized'', ''auth'', ''api key''], ''AUTH_ERROR''),
      ([''invalid'', ''not found'', ''does not exist''], ''INVALID_INPUT''),
      ([''agent'', ''tool''], ''AGENT_ERROR''),
      ([''parsing'', ''format'', ''hallucination''], ''LLM_ERROR'')]"

definition spec_classify :: "(string \<Rightarrow> string) \<Rightarrow> string \<Rightarrow> string" where
  "spec_classify lower e = first_match spec_keyword_table (lower e)"

text \<open>The keyword groups of the amended statement.\<close>

definition amended_keyword_table :: "(string list \<times> string) list" where
  "amended_keyword_table =
     [([''timeout'', ''connection'', ''network''], ''NETWORK_ERROR''),
      ([''rate limit'', ''quota'', ''too many requests''], ''RATE_LIMIT_ERROR''),
      ([''unauthorized'', ''authentication'', ''api key''], ''AUTH_ERROR''),
      ([''invalid'', ''not found'', ''does not exist''], ''INVALID_INPUT''),
      ([''agent'', ''tool''], ''AGENT_ERROR''),
      ([''parsing'', ''format'', ''hallucination''], ''LLM_ERROR'')]"

section \<open>Concrete inputs and named conditions\<close>

text \<open>
  The keywords of the three groups that the classifier tests before the group
  invalid / not found / does not exist.
\<close>


definition early_keywords :: "string list" where
  "early_keywords =
     [''timeout'', ''connection'', ''network'', ''rate limit'', ''quota'', ''too many requests'',
      ''unauthorized'', ''authentication'', ''api key'']"

text \<open>
  The lower-cased message \<open>Agent '<name>' not found\<close>, given the lower-cased name.
\<close>

definition lowered_agent_not_found :: "string \<Rightarrow> string" where
  "lowered_agent_not_found lowered_name =
     ''agent '' @ CHR 0x27 # (lowered_name @ CHR 0x27 # '' not found'')"

text \<open>A plan whose only task names an agent that is not registered.\<close>

definition misspelled_agent_state :: "string GraphState" where
  "misspelled_agent_state =
     (initial_state ''q'' ''s'')\<lparr>task_plan :=
        [\<lparr>task_id = ''t1'', agent = ''network_agent'', tool = ''news'', inputs = [],
          depends_on = None, status = Pending\<rparr>]\<rparr>"

text \<open>
  Plans and collaborators for the concrete runs: a plan of one task, a plan of two tasks
  whose second depends on the first, and a registry whose only agent raises the given
  message on every call.
\<close>

definition task_t1 :: TaskDefinition where
  "task_t1 =
     \<lparr>task_id = ''t1'', agent = ''news_agent'', tool = ''news_query'', inputs = [],
      depends_on = None, status = Pending\<rparr>"

definition task_t2 :: TaskDefinition where
  "task_t2 =
     \<lparr>task_id = ''t2'', agent = ''news_agent'', tool = ''news_query'', inputs = [],
      depends_on = Some ''t1'', status = Pending\<rparr>"

definition planned :: "TaskDefinition list \<Rightarrow> string GraphState" where
  "planned tasks = (initial_state ''query'' ''session'')\<lparr>task_plan := tasks\<rparr>"

definition failing_registry :: "string \<Rightarrow> (string \<rightharpoonup> string agent_fn)" where
  "failing_registry msg = [''news_agent'' \<mapsto> (\<lambda>state task. Inl msg)]"

text \<open>The state after the executor has run the first task and the agent has raised.\<close>

definition after_failure :: "TaskDefinition list \<Rightarrow> string \<Rightarrow> string GraphState" where
  "after_failure tasks msg =
     fst (agent_executor_node ascii_lower (failing_registry msg) (planned tasks))"

text \<open>Answers of the planner collaborator: two tasks with one id; a task that depends on itself.\<close>

definition duplicate_id_answer :: "task_data list" where
  "duplicate_id_answer =
     [\<lparr>td_task_id = ''t1'', td_agent = ''news_agent'', td_tool = ''news_query'', td_inputs = [],
       td_depends_on = None\<rparr>,
      \<lparr>td_task_id = ''t1'', td_agent = ''news_agent'', td_tool = ''report_query'', td_inputs = [],
       td_depends_on = None\<rparr>]"

definition self_dependent_answer :: "task_data list" where
  "self_dependent_answer =
     [\<lparr>td_task_id = ''t1'', td_agent = ''news_agent'', td_tool = ''news_query'', td_inputs = [],
       td_depends_on = Some ''t1''\<rparr>]"

text \<open>
  The executor's stopping condition, in the specification's words: a task is ready iff
  it is pending and \<open>depends_on\<close> is null or a key of the results; the executor is
  exhausted or blocked when no pending task is ready.
\<close>

definition blocked_by_spec :: "'r GraphState \<Rightarrow> TaskDefinition \<Rightarrow> bool" where
  "blocked_by_spec state task =
     (case depends_on task of None \<Rightarrow> False | Some d \<Rightarrow> agent_results state d = None)"

definition exhausted_or_blocked_spec :: "'r GraphState \<Rightarrow> bool" where
  "exhausted_or_blocked_spec state =
     list_all (\<lambda>task. status task \<noteq> Pending \<or> blocked_by_spec state task) (task_plan state)"

text \<open>The same with a dependency that is a non-empty task id.\<close>

definition has_unsatisfied_dependency :: "'r GraphState \<Rightarrow> TaskDefinition \<Rightarrow> bool" where
  "has_unsatisfied_dependency state task =
     (case depends_on task of None \<Rightarrow> False | Some d \<Rightarrow> d \<noteq> [] \<and> agent_results state d = None)"

definition exhausted_or_blocked :: "'r GraphState \<Rightarrow> bool" where
  "exhausted_or_blocked state =
     list_all (\<lambda>task. status task \<noteq> Pending \<or> has_unsatisfied_dependency state task)
       (task_plan state)"

text \<open>A pending task whose \<open>depends_on\<close> is the empty string, and an agent that answers.\<close>

definition task_empty_dependency :: TaskDefinition where
  "task_empty_dependency =
     \<lparr>task_id = ''t1'', agent = ''news_agent'', tool = ''news_query'', inputs = [],
      depends_on = Some [], status = Pending\<rparr>"

definition answering_registry :: "string \<rightharpoonup> string agent_fn" where
  "answering_registry = [''news_agent'' \<mapsto> (\<lambda>state task. Inr ''headline'')]"

text \<open>
  The states a workflow can be in. Besides the states between two nodes, this includes
  the state inside the executor in which the selected task has been marked running and
  is handed to its agent. The nodes may follow each other in any order, which covers
  the order of the graph.
\<close>

inductive reachable :: "'r env \<Rightarrow> 'r GraphState \<Rightarrow> bool" for env :: "'r env" where
  created: "reachable env (initial_state query sid)"
| routed: "reachable env state \<Longrightarrow>
     reachable env (fst (router_node (classifier env (original_query state)) state))"
| planned: "reachable env state \<Longrightarrow>
     reachable env (fst (planner_node (planner env state) state))"
| dispatched: "reachable env state \<Longrightarrow>
     get_next_executable_task state (get_pending_tasks state) = Some (i, task) \<Longrightarrow>
     reachable env (start_task state i)"
| executed: "reachable env state \<Longrightarrow>
     reachable env (fst (agent_executor_node (lowercase env) (registry env) state))"
| remediated: "reachable env state \<Longrightarrow>
     reachable env (fst (remediation_node (critical env) state))"

code_pred reachable .

text \<open>
  Dependency ordering in the specification's words: every running task with
  \<open>depends_on = X\<close> has \<open>X\<close> among the keys of the results.
\<close>

definition dependency_order_spec :: "'r GraphState \<Rightarrow> bool" where
  "dependency_order_spec state =
     list_all (\<lambda>task. status task \<noteq> Running \<or>
                 (case depends_on task of None \<Rightarrow> True | Some d \<Rightarrow> agent_results state d \<noteq> None))
       (task_plan state)"

text \<open>The same for a dependency that is a non-empty task id.\<close>

definition dependency_order :: "'r GraphState \<Rightarrow> bool" where
  "dependency_order state =
     list_all (\<lambda>task. status task \<noteq> Running \<or>
                 (case depends_on task of None \<Rightarrow> True
                  | Some d \<Rightarrow> d = [] \<or> agent_results state d \<noteq> None))
       (task_plan state)"

text \<open>
  A workflow whose planner answers with the given tasks and whose only agent answers.
\<close>

definition answering_env :: "task_data list \<Rightarrow> string env" where
  "answering_env tasks =
     \<lparr>lowercase = ascii_lower, classifier = (\<lambda>query. Inr ''COMPLEX''), planner = (\<lambda>state. FunctionCall tasks),
      registry = answering_registry, critical = placeholder_critical\<rparr>"

definition empty_dependency_answer :: "task_data list" where
  "empty_dependency_answer =
     [\<lparr>td_task_id = ''t1'', td_agent = ''news_agent'', td_tool = ''news_query'', td_inputs = [],
       td_depends_on = Some []\<rparr>]"

definition chain_answer :: "task_data list" where
  "chain_answer =
     [\<lparr>td_task_id = ''t1'', td_agent = ''news_agent'', td_tool = ''news_query'', td_inputs = [],
       td_depends_on = None\<rparr>,
      \<lparr>td_task_id = ''t2'', td_agent = ''news_agent'', td_tool = ''news_query'', td_inputs = [],
       td_depends_on = Some ''t1''\<rparr>]"

text \<open>
  A workflow whose classifier answers COMPLEX, whose planner answers with the given tasks
  and whose only agent raises the given message on every call.
\<close>

definition failing_env :: "task_data list \<Rightarrow> string \<Rightarrow> string env" where
  "failing_env tasks msg =
     \<lparr>lowercase = ascii_lower, classifier = (\<lambda>query. Inr ''COMPLEX''), planner = (\<lambda>state. FunctionCall tasks),
      registry = failing_registry msg, critical = placeholder_critical\<rparr>"

definition single_answer :: "task_data list" where
  "single_answer =
     [\<lparr>td_task_id = ''t1'', td_agent = ''news_agent'', td_tool = ''news_query'', td_inputs = [],
       td_depends_on = None\<rparr>]"

text \<open>The RETRY_ATTEMPT marker records of one task in the error log.\<close>

definition retry_markers :: "'r GraphState \<Rightarrow> string \<Rightarrow> nat" where
  "retry_markers state tid =
     length (filter (\<lambda>e. error_type e = ''RETRY_ATTEMPT'' \<and> e_task_id e = tid) (error_log state))"

text \<open>
  The error log after \<open>n\<close> rounds of failure and retry: each round leaves the failure
  record, whose \<open>retry_count\<close> the retry action has raised to 1, and the marker.
\<close>

fun retry_log :: "string \<Rightarrow> string \<Rightarrow> nat \<Rightarrow> ErrorRecord list" where
  "retry_log msg etype 0 = []"
| "retry_log msg etype (Suc n) =
     retry_log msg etype n @
       [\<lparr>e_task_id = ''t1'', e_agent = ''news_agent'', e_tool = ''news_query'', error_type = etype,
         error_message = msg, retry_count = 1\<rparr>,
        \<lparr>e_task_id = ''t1'', e_agent = ''news_agent'', e_tool = ''news_query'',
         error_type = ''RETRY_ATTEMPT'', error_message = ''Retrying task due to '' @ etype,
         retry_count = 1\<rparr>]"

definition retried :: "string \<Rightarrow> string \<Rightarrow> nat \<Rightarrow> string GraphState" where
  "retried msg etype n =
     (planned [task_t1])\<lparr>query_complexity := Some ''COMPLEX'', error_log := retry_log msg etype n\<rparr>"

text \<open>
  The error log of the blocked workflow: the failure of the first task, then one
  TASK_SKIPPED record for each remediation pass.
\<close>

fun skip_log :: "string \<Rightarrow> nat \<Rightarrow> ErrorRecord list" where
  "skip_log msg 0 =
     [\<lparr>e_task_id = ''t1'', e_agent = ''news_agent'', e_tool = ''news_query'',
       error_type = classify_error ascii_lower msg, error_message = msg, retry_count = 0\<rparr>]"
| "skip_log msg (Suc n) =
     skip_log msg n @
       [\<lparr>e_task_id = ''t1'', e_agent = ''remediation'', e_tool = ''continue'',
         error_type = ''TASK_SKIPPED'',
         error_message = ''Skipping task t1 due to unrecoverable '' @ error_type (last (skip_log msg n)),
         retry_count = 0\<rparr>]"

definition blocked :: "string \<Rightarrow> nat \<Rightarrow> string GraphState" where
  "blocked msg n =
     (planned [task_t1\<lparr>status := Failed\<rparr>, task_t2])
       \<lparr>query_complexity := Some ''COMPLEX'', error_log := skip_log msg n\<rparr>"

text \<open>No record of the log has one of the two critical types.\<close>

definition no_critical_records :: "ErrorRecord list \<Rightarrow> bool" where
  "no_critical_records log =
     (filter (\<lambda>e. error_type e \<in> set [''UNRECOVERABLE_ERROR'', ''AUTH_FAILURE'']) log = [])"

section \<open>Strings: lemmas\<close>

lemma str_in_sublist: "str_in k m = sublist k m"
  by (induction m) (auto simp: sublist_Cons_right)

lemma any_keyword_sublist:
  "any_keyword keywords message = (\<exists>keyword \<in> set keywords. sublist keyword message)"
  by (simp add: any_keyword_def list_ex_iff str_in_sublist)

lemmas eval_string = ascii_lower_def lower_char_def str_in_sublist [symmetric]

section \<open>The error classifier\<close>

text \<open>
  C8, as the specification states it, fails: the message \<open>too many requests\<close> is a
  rate-limit error for the code, and has no keyword of the specification's groups.
\<close>

theorem classify_error_spec_counterexample:
  "classify_error ascii_lower ''too many requests'' = ''RATE_LIMIT_ERROR'' \<and>
   spec_classify ascii_lower ''too many requests'' = ''UNKNOWN_ERROR''"
  by (simp add: classify_error_def any_keyword_def spec_classify_def spec_keyword_table_def
        eval_string)

text \<open>
  C8, amended: for every raw failure message, and whatever function lower-cases it, the
  classifier assigns the type by first match on the lower-cased message, in this
  priority order: NETWORK_ERROR on
  timeout / connection / network, then RATE_LIMIT_ERROR on rate limit / quota /
  too many requests, then AUTH_ERROR on unauthorized / authentication / api key, then
  INVALID_INPUT on invalid / not found / does not exist, then AGENT_ERROR on agent / tool,
  then LLM_ERROR on parsing / format / hallucination, else UNKNOWN_ERROR.
\<close>

theorem classify_error_first_match:
  "classify_error lower e = first_match amended_keyword_table (lower e)"
  unfolding classify_error_def amended_keyword_table_def Let_def any_keyword_sublist
  by auto

theorem classify_error_first_match_witness:
  "classify_error ascii_lower ''Connection Timeout'' = ''NETWORK_ERROR''"
  using classify_error_first_match [of ascii_lower "''Connection Timeout''"]
  by (simp add: amended_keyword_table_def eval_string)

lemma sublist_separator:
  assumes "c \<notin> set k"
  shows "sublist k (xs @ c # ys) \<longleftrightarrow> sublist k xs \<or> sublist k ys"
proof -
  have p: "prefix k2 (c # ys) \<longleftrightarrow> k2 = []" if "c \<notin> set k2" for k2
    using that by (cases k2) auto
  have "sublist k (c # ys) \<longleftrightarrow> k = [] \<or> sublist k ys"
    using assms by (simp add: sublist_Cons_right p)
  moreover have "sublist k xs" if "k = k1 @ k2" "suffix k1 xs" "prefix k2 (c # ys)" for k1 k2
  proof -
    from that(1) assms have "c \<notin> set k2" by simp
    with that(3) have "k2 = []" by (simp add: p)
    with that(1,2) show ?thesis by simp
  qed
  ultimately show ?thesis
    by (auto simp: sublist_append)
qed

lemma ascii_lower_agent_not_found:
  "ascii_lower (agent_not_found name) = lowered_agent_not_found (ascii_lower name)"
  by (simp add: agent_not_found_def lowered_agent_not_found_def ascii_lower_def lower_char_def)

lemma keyword_in_agent_not_found:
  assumes "CHR 0x27 \<notin> set k"
  shows "sublist k (lowered_agent_not_found n) \<longleftrightarrow>
         sublist k ''agent '' \<or> sublist k n \<or> sublist k '' not found''"
  by (simp only: lowered_agent_not_found_def sublist_separator [OF assms])

lemma not_found_in_agent_not_found:
  "sublist ''not found'' (lowered_agent_not_found n)"
proof -
  have "str_in ''not found'' '' not found''" by simp
  then have "sublist ''not found'' '' not found''" by (simp only: str_in_sublist)
  moreover have "CHR 0x27 \<notin> set ''not found''" by simp
  ultimately show ?thesis by (simp only: keyword_in_agent_not_found simp_thms)
qed

lemma early_keyword_in_agent_not_found:
  assumes "k \<in> set early_keywords"
  shows "sublist k (lowered_agent_not_found n) \<longleftrightarrow> sublist k n"
proof -
  from assms have a: "CHR 0x27 \<notin> set k" and b: "\<not> str_in k ''agent ''" and c: "\<not> str_in k '' not found''"
    by (auto simp: early_keywords_def)
  show ?thesis
    using b c by (simp add: keyword_in_agent_not_found [OF a] str_in_sublist)
qed

lemma classify_agent_not_found:
  assumes "lower (agent_not_found name) = lowered_agent_not_found (lower name)"
  shows "classify_error lower (agent_not_found name) =
     (if any_keyword [''timeout'', ''connection'', ''network''] (lower name)
        then ''NETWORK_ERROR''
      else if any_keyword [''rate limit'', ''quota'', ''too many requests''] (lower name)
        then ''RATE_LIMIT_ERROR''
      else if any_keyword [''unauthorized'', ''authentication'', ''api key''] (lower name)
        then ''AUTH_ERROR''
      else ''INVALID_INPUT'')"
proof -
  let ?m = "lowered_agent_not_found (lower name)"
  have e: "sublist k ?m \<longleftrightarrow> sublist k (lower name)" if "k \<in> set early_keywords" for k
    using that by (rule early_keyword_in_agent_not_found)
  have n: "any_keyword [''invalid'', ''not found'', ''does not exist''] ?m"
    using not_found_in_agent_not_found [of "lower name"] by (simp add: any_keyword_sublist)
  have 1: "any_keyword [''timeout'', ''connection'', ''network''] ?m
     = any_keyword [''timeout'', ''connection'', ''network''] (lower name)"
    by (simp add: any_keyword_sublist e early_keywords_def)
  have 2: "any_keyword [''rate limit'', ''quota'', ''too many requests''] ?m
     = any_keyword [''rate limit'', ''quota'', ''too many requests''] (lower name)"
    by (simp add: any_keyword_sublist e early_keywords_def)
  have 3: "any_keyword [''unauthorized'', ''authentication'', ''api key''] ?m
     = any_keyword [''unauthorized'', ''authentication'', ''api key''] (lower name)"
    by (simp add: any_keyword_sublist e early_keywords_def)
  show ?thesis
    unfolding classify_error_def Let_def assms 1 2 3 using n by simp
qed

section \<open>The executor\<close>

lemma next_executable_taskD:
  assumes "get_next_executable_task state (get_pending_tasks state) = Some (i, task)"
  shows "i < length (task_plan state)" "task_plan state ! i = task" "status task = Pending"
        "dependencies_satisfied state task"
proof -
  from assms obtain j where j: "j < length (get_pending_tasks state)"
      "get_pending_tasks state ! j = (i, task)" and d: "dependencies_satisfied state task"
    by (auto simp: get_next_executable_task_def find_Some_iff)
  from j have "(i, task) \<in> set (get_pending_tasks state)"
    by (metis nth_mem)
  with d show "i < length (task_plan state)" "task_plan state ! i = task" "status task = Pending"
        "dependencies_satisfied state task"
    by (auto simp: get_pending_tasks_def in_set_enumerate_eq)
qed

lemma executor_failure:
  assumes sel: "get_next_executable_task state (get_pending_tasks state) = Some (i, task)"
      and fail: "dispatch reg (start_task state i) (task\<lparr>status := Running\<rparr>) = Inl e"
  shows "fst (agent_executor_node lower reg state) =
           add_error (mark_task_failed (start_task state i) (task_id task))
             (task_id task) (agent task) (tool task) (classify_error lower e) e 0"
proof -
  from sel have ne: "get_pending_tasks state \<noteq> []"
    by (auto simp: get_next_executable_task_def)
  have nth: "task_plan (start_task state i) ! i = task\<lparr>status := Running\<rparr>"
    using next_executable_taskD(1,2) [OF sel] by (simp add: start_task_def)
  show ?thesis
    using ne sel fail by (simp add: agent_executor_node_def Let_def nth)
qed

text \<open>
  C10, as stated, fails: the name of the agent is part of the message, and the groups
  network, rate limit and auth are tested before the group invalid / not found. An
  unregistered agent called \<open>network_agent\<close> gives a NETWORK_ERROR record.
\<close>

theorem misspelled_agent_counterexample:
  "agent (hd (task_plan misspelled_agent_state)) \<notin> dom (Map.empty :: string \<rightharpoonup> string agent_fn) \<and>
   error_type (last (error_log (fst (agent_executor_node ascii_lower Map.empty misspelled_agent_state))))
     = ''NETWORK_ERROR''"
  by (simp add: misspelled_agent_state_def agent_executor_node_def get_next_executable_task_def
        get_pending_tasks_def initial_state_def enumerate_eq_zip dependencies_satisfied_def
        start_task_def dispatch_def get_agent_def mark_task_failed_def set_status_by_id_def
        add_error_def classify_error_def agent_not_found_def any_keyword_def eval_string Let_def)

text \<open>
  C10, amended: for every task that the executor dispatches and whose agent name is not
  in the registry, dispatch raises \<open>Agent '<name>' not found\<close>; the executor marks the
  task failed, leaves the results as they are, returns the keys \<open>error_log\<close> and
  \<open>task_plan\<close>, and appends to the log exactly one record: the task's id, agent and
  tool, that message, \<open>retry_count = 0\<close>, and the type by first match on the
  lower-cased name: NETWORK_ERROR, RATE_LIMIT_ERROR or AUTH_ERROR when the name contains
  a keyword of those groups, INVALID_INPUT otherwise, and never AGENT_ERROR. Lower-casing
  is any function that lower-cases the fixed text of the message and the name
  separately, as \<open>str.lower()\<close> does (the apostrophes and spaces around the name keep
  every context rule inside the name).
\<close>

theorem unknown_agent_error_record:
  assumes "get_next_executable_task state (get_pending_tasks state) = Some (i, task)"
      and "agent task \<notin> dom reg"
      and "lower (agent_not_found (agent task)) = lowered_agent_not_found (lower (agent task))"
  shows "agent_executor_node lower reg state =
           ((mark_task_failed (start_task state i) (task_id task))
              \<lparr>error_log := error_log state @
                 [\<lparr>e_task_id = task_id task, e_agent = agent task, e_tool = tool task,
                   error_type =
                     (if any_keyword [''timeout'', ''connection'', ''network''] (lower (agent task))
                        then ''NETWORK_ERROR''
                      else if any_keyword [''rate limit'', ''quota'', ''too many requests'']
                                (lower (agent task))
                        then ''RATE_LIMIT_ERROR''
                      else if any_keyword [''unauthorized'', ''authentication'', ''api key'']
                                (lower (agent task))
                        then ''AUTH_ERROR''
                      else ''INVALID_INPUT''),
                   error_message = agent_not_found (agent task), retry_count = 0\<rparr>]\<rparr>,
            [''error_log'', ''task_plan''])"
proof -
  from assms(1) have ne: "get_pending_tasks state \<noteq> []"
    by (auto simp: get_next_executable_task_def)
  have nth: "task_plan (start_task state i) ! i = task\<lparr>status := Running\<rparr>"
    using next_executable_taskD(1,2) [OF assms(1)] by (simp add: start_task_def)
  have d: "dispatch reg (start_task state i) (task\<lparr>status := Running\<rparr>)
          = Inl (agent_not_found (agent task))"
    using assms(2) by (simp add: dispatch_def get_agent_def)
  have l: "error_log (mark_task_failed (start_task state i) (task_id task)) = error_log state"
    by (simp add: mark_task_failed_def set_status_by_id_def start_task_def)
  show ?thesis
    using ne assms(1) d
    by (simp add: agent_executor_node_def Let_def nth add_error_def l
          classify_agent_not_found [OF assms(3)])
qed

theorem unknown_agent_error_record_witness:
  "agent_executor_node ascii_lower (Map.empty :: string \<rightharpoonup> string agent_fn)
     (planned [task_t1\<lparr>agent := ''stock_agnet''\<rparr>])
   = ((planned [task_t1\<lparr>agent := ''stock_agnet'', status := Failed\<rparr>])
        \<lparr>error_log :=
           [\<lparr>e_task_id = ''t1'', e_agent = ''stock_agnet'', e_tool = ''news_query'',
             error_type = ''INVALID_INPUT'',
             error_message = ''Agent '' @ CHR 0x27 # ''stock_agnet'' @ CHR 0x27 # '' not found'',
             retry_count = 0\<rparr>]\<rparr>,
      [''error_log'', ''task_plan''])"
proof -
  let ?task = "task_t1\<lparr>agent := ''stock_agnet''\<rparr>"
  let ?s = "planned [?task] :: string GraphState"
  have sel: "get_next_executable_task ?s (get_pending_tasks ?s) = Some (0, ?task)"
    by (simp add: get_next_executable_task_def get_pending_tasks_def planned_def
          initial_state_def task_t1_def enumerate_eq_zip dependencies_satisfied_def)
  have unreg: "agent ?task \<notin> dom (Map.empty :: string \<rightharpoonup> string agent_fn)"
    by simp
  have frame: "ascii_lower (agent_not_found (agent ?task))
                 = lowered_agent_not_found (ascii_lower (agent ?task))"
    by (rule ascii_lower_agent_not_found)
  have kw: "\<not> any_keyword [''timeout'', ''connection'', ''network''] (ascii_lower ''stock_agnet'')"
    "\<not> any_keyword [''rate limit'', ''quota'', ''too many requests''] (ascii_lower ''stock_agnet'')"
    "\<not> any_keyword [''unauthorized'', ''authentication'', ''api key''] (ascii_lower ''stock_agnet'')"
    by (simp_all add: any_keyword_def eval_string)
  have a: "agent ?task = ''stock_agnet''"
    by simp
  show ?thesis
    using unknown_agent_error_record [OF sel unreg frame] kw
    unfolding a
    by (simp add: planned_def initial_state_def task_t1_def start_task_def mark_task_failed_def
          set_status_by_id_def agent_not_found_def)
qed

lemmas eval_state =
  planned_def initial_state_def task_t1_def task_t2_def failing_registry_def after_failure_def
  agent_executor_node_def get_next_executable_task_def get_pending_tasks_def enumerate_eq_zip
  dependencies_satisfied_def start_task_def dispatch_def get_agent_def mark_task_failed_def
  mark_task_completed_def set_status_by_id_def add_error_def get_task_by_id_def Let_def

lemmas eval_classify = classify_error_def any_keyword_def eval_string

lemmas eval_remediation =
  remediation_node_def determine_remediation_action_def handle_retry_def handle_replan_def
  handle_continue_def handle_complete_def placeholder_critical_def critical_errors_count_def

lemmas eval_routes =
  route_after_execution_def route_after_remediation_def route_after_classification_def
  after_executor_def after_remediation_def after_router_def conditional_edge_def

section \<open>The remediation policy\<close>

lemma network_error_retried:
  assumes "\<not> crit state" "error_type error = ''NETWORK_ERROR''" "retry_count error < 3"
  shows "determine_remediation_action crit state error = ''retry''"
  using assms by (simp add: determine_remediation_action_def)

lemma rate_limit_error_never_retried:
  assumes "error_type error = ''RATE_LIMIT_ERROR''"
  shows "determine_remediation_action crit state error \<noteq> ''retry''"
  using assms by (simp add: determine_remediation_action_def)

lemma invalid_input_never_replanned:
  assumes "error_type error = ''INVALID_INPUT''"
  shows "determine_remediation_action crit state error \<noteq> ''replan''"
  using assms by (simp add: determine_remediation_action_def)

text \<open>
  C3 fails on the code at a rate-limit error. The agent raises \<open>Rate limit exceeded\<close>;
  the executor records a RATE_LIMIT_ERROR with \<open>retry_count = 0\<close>, no critical error
  holds, and the policy decides \<open>complete\<close>, not \<open>retry\<close>: its retry rule tests for
  API_TIMEOUT and NETWORK_ERROR. The helper \<open>_should_retry_task\<close> of the executor
  counts the same record as retryable.
\<close>

theorem rate_limit_error_not_retried:
  "error_type (last (error_log (after_failure [task_t1] ''Rate limit exceeded''))) = ''RATE_LIMIT_ERROR'' \<and>
   retry_count (last (error_log (after_failure [task_t1] ''Rate limit exceeded''))) = 0 \<and>
   \<not> placeholder_critical (after_failure [task_t1] ''Rate limit exceeded'') \<and>
   determine_remediation_action placeholder_critical
     (after_failure [task_t1] ''Rate limit exceeded'')
     (last (error_log (after_failure [task_t1] ''Rate limit exceeded''))) = ''complete'' \<and>
   should_retry_task (after_failure [task_t1] ''Rate limit exceeded'') ''t1''"
  by (simp add: eval_state eval_classify eval_remediation should_retry_task_def)

text \<open>
  C4 fails on the code at an invalid-input error. The agent raises
  \<open>Invalid inputs for news query\<close> on the first of two tasks; the executor records an
  INVALID_INPUT error, no critical error holds and no retry rule applies, and the policy
  decides \<open>continue\<close>, not \<open>replan\<close>: its replan rule tests for INVALID_STOCK_CODE.
\<close>

theorem invalid_input_not_replanned:
  "error_type (last (error_log (after_failure [task_t1, task_t2] ''Invalid inputs for news query'')))
     = ''INVALID_INPUT'' \<and>
   length (task_plan (after_failure [task_t1, task_t2] ''Invalid inputs for news query'')) > 1 \<and>
   \<not> placeholder_critical (after_failure [task_t1, task_t2] ''Invalid inputs for news query'') \<and>
   determine_remediation_action placeholder_critical
     (after_failure [task_t1, task_t2] ''Invalid inputs for news query'')
     (last (error_log (after_failure [task_t1, task_t2] ''Invalid inputs for news query'')))
     = ''continue''"
  by (simp add: eval_state eval_classify eval_remediation)

section \<open>Replanning\<close>

lemma replan_clears_plan_and_completes:
  assumes "error_log state \<noteq> []"
      and "determine_remediation_action crit state (last (error_log state)) = ''replan''"
  shows "task_plan (fst (remediation_node crit state)) = []"
    and "route_after_remediation crit (fst (remediation_node crit state)) = ''complete''"
    and "after_remediation crit (fst (remediation_node crit state)) = AnswerGenerator"
  using assms
  by (simp_all add: remediation_node_def handle_replan_def add_error_def set_status_by_id_def
        route_after_remediation_def after_remediation_def conditional_edge_def
        get_pending_tasks_def Let_def)

lemma retry_decided_types:
  assumes "determine_remediation_action crit state error = ''retry''"
  shows "error_type error \<in> set [''API_TIMEOUT'', ''NETWORK_ERROR'', ''AGENT_HALLUCINATION'', ''LLM_ERROR'']"
proof (rule ccontr)
  assume "\<not> ?thesis"
  then have "determine_remediation_action crit state error \<noteq> ''retry''"
    by (simp add: determine_remediation_action_def)
  with assms show False by simp
qed

lemma handle_retry_log:
  "error_log (fst (handle_retry state error)) = error_log state \<or>
   error_log (fst (handle_retry state error)) =
     butlast (error_log state) @
       [error\<lparr>retry_count := retry_count error + 1\<rparr>,
        \<lparr>e_task_id = e_task_id error, e_agent = e_agent error, e_tool = e_tool error,
         error_type = ''RETRY_ATTEMPT'',
         error_message = ''Retrying task due to '' @ error_type error,
         retry_count = retry_count error + 1\<rparr>]"
  by (cases "get_task_by_id state (e_task_id error)")
     (simp_all add: handle_retry_def Let_def add_error_def set_status_by_id_def)

lemma handle_replan_log:
  "error_log (fst (handle_replan state error)) =
     error_log state @
       [\<lparr>e_task_id = ''replanning'', e_agent = ''remediation'', e_tool = ''replan'',
         error_type = ''REPLAN_TRIGGERED'',
         error_message = ''Replanning triggered by '' @ error_type error @ '' in task '' @ e_task_id error,
         retry_count = 0\<rparr>]"
  by (simp add: handle_replan_def Let_def add_error_def set_status_by_id_def)

lemma handle_continue_log:
  "error_log (fst (handle_continue state error)) =
     error_log state @
       [\<lparr>e_task_id = e_task_id error, e_agent = ''remediation'', e_tool = ''continue'',
         error_type = ''TASK_SKIPPED'',
         error_message = ''Skipping task '' @ e_task_id error @ '' due to unrecoverable '' @ error_type error,
         retry_count = 0\<rparr>]"
  by (simp add: handle_continue_def Let_def add_error_def set_status_by_id_def)

lemma handle_complete_log:
  "error_log (fst (handle_complete state error)) =
     error_log state @
       [\<lparr>e_task_id = ''completion'', e_agent = ''remediation'', e_tool = ''complete'',
         error_type = ''FORCED_COMPLETION'',
         error_message = ''Completing processing due to critical errors or max retries reached'',
         retry_count = 0\<rparr>]"
  by (simp add: handle_complete_def Let_def add_error_def)

lemma remediation_node_handlers:
  assumes "error_log state \<noteq> []"
  shows "fst (remediation_node crit state) = fst (handle_retry state (last (error_log state))) \<and>
           determine_remediation_action crit state (last (error_log state)) = ''retry'' \<or>
         fst (remediation_node crit state) = fst (handle_replan state (last (error_log state))) \<or>
         fst (remediation_node crit state) = fst (handle_continue state (last (error_log state))) \<or>
         fst (remediation_node crit state) = fst (handle_complete state (last (error_log state)))"
  using assms by (simp add: remediation_node_def Let_def)

lemma remediation_node_idle:
  "error_log state = [] \<Longrightarrow> fst (remediation_node crit state) = state"
  by (simp add: remediation_node_def)

lemma last_after_remediation:
  "error_log (fst (remediation_node crit state)) = [] \<or>
   error_type (last (error_log (fst (remediation_node crit state)))) \<noteq> ''INVALID_STOCK_CODE''"
proof (cases "error_log state = []")
  case True
  then show ?thesis by (simp add: remediation_node_idle)
next
  case False
  let ?e = "last (error_log state)"
  from remediation_node_handlers [OF False, of crit]
  consider (retry) "fst (remediation_node crit state) = fst (handle_retry state ?e)"
      "determine_remediation_action crit state ?e = ''retry''"
    | (replan) "fst (remediation_node crit state) = fst (handle_replan state ?e)"
    | (continue) "fst (remediation_node crit state) = fst (handle_continue state ?e)"
    | (complete) "fst (remediation_node crit state) = fst (handle_complete state ?e)"
    by blast
  then show ?thesis
  proof cases
    case retry
    from retry(2) have t: "error_type ?e \<noteq> ''INVALID_STOCK_CODE''"
      using retry_decided_types [of crit state ?e] by auto
    from handle_retry_log [of state ?e] show ?thesis
    proof
      assume "error_log (fst (handle_retry state ?e)) = error_log state"
      with retry(1) t show ?thesis by simp
    next
      assume "error_log (fst (handle_retry state ?e)) =
        butlast (error_log state) @
          [?e\<lparr>retry_count := retry_count ?e + 1\<rparr>,
           \<lparr>e_task_id = e_task_id ?e, e_agent = e_agent ?e, e_tool = e_tool ?e,
            error_type = ''RETRY_ATTEMPT'',
            error_message = ''Retrying task due to '' @ error_type ?e,
            retry_count = retry_count ?e + 1\<rparr>]"
      with retry(1) show ?thesis by simp
    qed
  next
    case replan
    then show ?thesis by (simp add: handle_replan_log)
  next
    case continue
    then show ?thesis by (simp add: handle_continue_log)
  next
    case complete
    then show ?thesis by (simp add: handle_complete_log)
  qed
qed

lemma route_replan_needs_stock_code:
  assumes "route_after_remediation crit state = ''replan''"
  shows "error_log state \<noteq> [] \<and> error_type (last (error_log state)) = ''INVALID_STOCK_CODE''"
proof (rule ccontr)
  assume "\<not> ?thesis"
  then have "route_after_remediation crit state \<noteq> ''replan''"
    by (auto simp: route_after_remediation_def Let_def)
  with assms show False by simp
qed

lemma route_after_remediation_not_replan:
  "route_after_remediation crit (fst (remediation_node crit state)) \<noteq> ''replan''"
  using last_after_remediation [of crit state] route_replan_needs_stock_code
  by blast

lemma route_after_remediation_values:
  "route_after_remediation crit state = ''complete'' \<or>
   route_after_remediation crit state = ''retry'' \<or>
   route_after_remediation crit state = ''replan'' \<or>
   route_after_remediation crit state = ''continue''"
  by (simp add: route_after_remediation_def Let_def)

lemma planner_only_after_replan:
  assumes "after_remediation crit state = Planner"
  shows "route_after_remediation crit state = ''replan''"
proof -
  have e: "conditional_edge
       [(''retry'', AgentExecutor), (''replan'', Planner), (''continue'', AgentExecutor),
        (''complete'', AnswerGenerator)] r \<noteq> Planner"
    if "r = ''complete'' \<or> r = ''retry'' \<or> r = ''continue''" for r
    using that by (auto simp: conditional_edge_def)
  from route_after_remediation_values [of crit state] assms e show ?thesis
    unfolding after_remediation_def by blast
qed

lemma classify_error_values:
  "classify_error lower e \<in> set [''NETWORK_ERROR'', ''RATE_LIMIT_ERROR'', ''AUTH_ERROR'',
     ''INVALID_INPUT'', ''AGENT_ERROR'', ''LLM_ERROR'', ''UNKNOWN_ERROR'']"
  by (simp add: classify_error_def Let_def)

lemma classify_error_not_stock_code: "classify_error lower e \<noteq> ''INVALID_STOCK_CODE''"
  using classify_error_values [of lower e] by auto

lemma executor_log:
  "error_log (fst (agent_executor_node lower reg state)) = error_log state \<or>
   (\<exists>r. error_log (fst (agent_executor_node lower reg state)) = error_log state @ [r] \<and>
        error_type r \<noteq> ''INVALID_STOCK_CODE'')"
proof (cases "get_next_executable_task state (get_pending_tasks state)")
  case None
  then show ?thesis by (simp add: agent_executor_node_def Let_def)
next
  case (Some a)
  obtain i task where a: "a = (i, task)" by (cases a)
  show ?thesis
  proof (cases "get_pending_tasks state = []")
    case True
    then show ?thesis by (simp add: agent_executor_node_def Let_def)
  next
    case False
    show ?thesis
    proof (cases "dispatch reg (start_task state i) (task_plan (start_task state i) ! i)")
      case (Inl e)
      with Some a False show ?thesis
        by (simp add: agent_executor_node_def Let_def add_error_def mark_task_failed_def
              set_status_by_id_def start_task_def classify_error_not_stock_code)
    next
      case (Inr result)
      with Some a False show ?thesis
        by (simp add: agent_executor_node_def Let_def mark_task_completed_def
              set_status_by_id_def start_task_def)
    qed
  qed
qed

lemma remediation_log_types:
  assumes "\<forall>e \<in> set (error_log state). error_type e \<noteq> ''INVALID_STOCK_CODE''"
  shows "\<forall>e \<in> set (error_log (fst (remediation_node crit state))).
           error_type e \<noteq> ''INVALID_STOCK_CODE''"
proof (cases "error_log state = []")
  case True
  with assms show ?thesis by (simp add: remediation_node_idle)
next
  case False
  let ?e = "last (error_log state)"
  from False assms have l: "error_type ?e \<noteq> ''INVALID_STOCK_CODE''" by simp
  from remediation_node_handlers [OF False, of crit]
  consider (retry) "fst (remediation_node crit state) = fst (handle_retry state ?e)"
    | (replan) "fst (remediation_node crit state) = fst (handle_replan state ?e)"
    | (continue) "fst (remediation_node crit state) = fst (handle_continue state ?e)"
    | (complete) "fst (remediation_node crit state) = fst (handle_complete state ?e)"
    by blast
  then show ?thesis
  proof cases
    case retry
    from handle_retry_log [of state ?e] show ?thesis
    proof
      assume "error_log (fst (handle_retry state ?e)) = error_log state"
      with retry assms show ?thesis by simp
    next
      assume "error_log (fst (handle_retry state ?e)) =
        butlast (error_log state) @
          [?e\<lparr>retry_count := retry_count ?e + 1\<rparr>,
           \<lparr>e_task_id = e_task_id ?e, e_agent = e_agent ?e, e_tool = e_tool ?e,
            error_type = ''RETRY_ATTEMPT'',
            error_message = ''Retrying task due to '' @ error_type ?e,
            retry_count = retry_count ?e + 1\<rparr>]"
      with retry assms l show ?thesis by (auto dest: in_set_butlastD)
    qed
  next
    case replan
    with assms show ?thesis by (simp add: handle_replan_log)
  next
    case continue
    with assms show ?thesis by (simp add: handle_continue_log)
  next
    case complete
    with assms show ?thesis by (simp add: handle_complete_log)
  qed
qed

lemma reachable_log_types:
  assumes "reachable env state"
  shows "\<forall>e \<in> set (error_log state). error_type e \<noteq> ''INVALID_STOCK_CODE''"
  using assms
proof (induction rule: reachable.induct)
  case (created query sid)
  show ?case by (simp add: initial_state_def)
next
  case (routed state)
  then show ?case
    by (cases "classifier env (original_query state)")
       (simp_all add: router_node_def add_error_def Let_def)
next
  case (planned state)
  then show ?case
    by (cases "planner env state")
       (simp_all add: planner_node_def planner_failed_def add_error_def)
next
  case (dispatched state i task)
  then show ?case by (simp add: start_task_def)
next
  case (executed state)
  from executor_log [of "lowercase env" "registry env" state] show ?case
  proof (elim disjE exE conjE)
    assume "error_log (fst (agent_executor_node (lowercase env) (registry env) state)) = error_log state"
    with executed.IH show ?thesis by simp
  next
    fix r
    assume "error_log (fst (agent_executor_node (lowercase env) (registry env) state)) = error_log state @ [r]"
       "error_type r \<noteq> ''INVALID_STOCK_CODE''"
    with executed.IH show ?thesis by simp
  qed
next
  case (remediated state)
  from remediated.IH show ?case by (rule remediation_log_types)
qed

lemma replan_never_decided:
  assumes "reachable env state" "error_log state \<noteq> []"
  shows "determine_remediation_action crit state (last (error_log state)) \<noteq> ''replan''"
proof -
  from assms have "error_type (last (error_log state)) \<noteq> ''INVALID_STOCK_CODE''"
    using reachable_log_types [OF assms(1)] by simp
  then show ?thesis by (simp add: determine_remediation_action_def)
qed

section \<open>The planner\<close>

lemma planner_fallback_on_error:
  "task_plan (fst (planner_node (PlanRaises e) state)) = create_fallback_plan (original_query state)"
  "task_plan (fst (planner_node NoFunctionCall state)) = create_fallback_plan (original_query state)"
  by (simp_all add: planner_node_def planner_failed_def add_error_def)

lemma planner_accepts_every_answer:
  "task_plan (fst (planner_node (FunctionCall tasks) state)) = map make_task tasks"
  by (simp add: planner_node_def)

text \<open>
  C5 fails on the code: \<open>planner_node\<close> never calls \<open>_validate_task_plan\<close>. An answer
  with two tasks of the same id, and an answer whose task depends on itself, are both
  rejected by the validation function and both become the plan as they are.
\<close>

theorem planner_accepts_invalid_plans:
  "\<not> validate_task_plan (map make_task duplicate_id_answer) \<and>
   task_plan (fst (planner_node (FunctionCall duplicate_id_answer) (initial_state ''query'' ''session'' :: string GraphState)))
     = map make_task duplicate_id_answer \<and>
   map make_task duplicate_id_answer \<noteq> create_fallback_plan ''query'' \<and>
   \<not> validate_task_plan (map make_task self_dependent_answer) \<and>
   task_plan (fst (planner_node (FunctionCall self_dependent_answer) (initial_state ''query'' ''session'' :: string GraphState)))
     = map make_task self_dependent_answer \<and>
   map make_task self_dependent_answer \<noteq> create_fallback_plan ''query''"
  by (simp add: validate_task_plan_def planner_node_def duplicate_id_answer_def
        self_dependent_answer_def make_task_def create_fallback_plan_def initial_state_def)

section \<open>Idempotence of the executor\<close>

lemma pending_task_in_plan:
  assumes "(i, task) \<in> set (get_pending_tasks state)"
  shows "task \<in> set (task_plan state)" "status task = Pending"
        "i < length (task_plan state)" "task_plan state ! i = task"
  using assms by (auto simp: get_pending_tasks_def in_set_enumerate_eq)

lemma unsatisfied_not_ready:
  "has_unsatisfied_dependency state task \<Longrightarrow> \<not> dependencies_satisfied state task"
  by (auto simp: has_unsatisfied_dependency_def dependencies_satisfied_def split: option.splits)

lemma blocked_no_executable_task:
  assumes "exhausted_or_blocked state"
  shows "get_next_executable_task state (get_pending_tasks state) = None"
proof -
  have "\<not> dependencies_satisfied state task" if "(i, task) \<in> set (get_pending_tasks state)" for i task
  proof -
    from that have "task \<in> set (task_plan state)" "status task = Pending"
      by (rule pending_task_in_plan)+
    with assms have "has_unsatisfied_dependency state task"
      by (auto simp: exhausted_or_blocked_def list_all_iff)
    then show ?thesis by (rule unsatisfied_not_ready)
  qed
  then show ?thesis
    by (auto simp: get_next_executable_task_def find_None_iff)
qed

lemma blocked_executor_noop:
  assumes "exhausted_or_blocked state"
  shows "agent_executor_node lower reg state = (state, [])"
  using blocked_no_executable_task [OF assms]
  by (simp add: agent_executor_node_def Let_def)

lemma blocked_executor_repeat:
  assumes "exhausted_or_blocked state"
  shows "((\<lambda>s. fst (agent_executor_node lower reg s)) ^^ n) state = state"
  by (induction n) (simp_all add: blocked_executor_noop [OF assms])

text \<open>
  C9, as stated, fails: a pending task whose \<open>depends_on\<close> is the empty string has a
  dependency that is not a key of the results, and the executor dispatches it all the
  same (the empty string is falsy): the update is not empty and the state changes.
\<close>

theorem executor_runs_empty_dependency:
  "exhausted_or_blocked_spec (planned [task_empty_dependency]) \<and>
   snd (agent_executor_node ascii_lower answering_registry (planned [task_empty_dependency]))
     = [''agent_results'', ''task_plan''] \<and>
   map status (task_plan (fst (agent_executor_node ascii_lower answering_registry (planned [task_empty_dependency]))))
     = [Completed]"
  by (simp add: exhausted_or_blocked_spec_def blocked_by_spec_def task_empty_dependency_def
        answering_registry_def eval_state)

text \<open>
  C9, amended: for every state in which no task is pending, or every pending task has a
  non-empty \<open>depends_on\<close> that is not a key of the results, an executor invocation
  returns an empty update and leaves the state unchanged, and so does every repetition.
\<close>

theorem executor_idempotent_when_blocked:
  assumes "exhausted_or_blocked state"
  shows "agent_executor_node lower reg state = (state, []) \<and>
         ((\<lambda>s. fst (agent_executor_node lower reg s)) ^^ n) state = state \<and>
         snd (agent_executor_node lower reg (((\<lambda>s. fst (agent_executor_node lower reg s)) ^^ n) state)) = []"
  using assms by (simp add: blocked_executor_noop blocked_executor_repeat)

theorem executor_idempotent_when_blocked_witness:
  "exhausted_or_blocked (planned [task_t1\<lparr>status := Failed\<rparr>, task_t2]) \<and>
   agent_executor_node ascii_lower answering_registry (planned [task_t1\<lparr>status := Failed\<rparr>, task_t2])
     = (planned [task_t1\<lparr>status := Failed\<rparr>, task_t2], []) \<and>
   ((\<lambda>s. fst (agent_executor_node ascii_lower answering_registry s)) ^^ 3)
      (planned [task_t1\<lparr>status := Failed\<rparr>, task_t2])
     = planned [task_t1\<lparr>status := Failed\<rparr>, task_t2]"
proof -
  have h: "exhausted_or_blocked (planned [task_t1\<lparr>status := Failed\<rparr>, task_t2])"
    by (simp add: exhausted_or_blocked_def has_unsatisfied_dependency_def planned_def
          initial_state_def task_t1_def task_t2_def)
  from executor_idempotent_when_blocked [OF h, of ascii_lower answering_registry 3] h
  show ?thesis by simp
qed

section \<open>Dependency ordering\<close>

lemma dependency_order_iff:
  "dependency_order state \<longleftrightarrow>
     (\<forall>task \<in> set (task_plan state). status task = Running \<longrightarrow> dependencies_satisfied state task)"
  by (auto simp: dependency_order_def dependencies_satisfied_def list_all_iff)

lemma dependency_order_preserved:
  assumes "dependency_order state"
      and "\<And>task. task \<in> set (task_plan state') \<Longrightarrow> status task = Running \<Longrightarrow>
             task \<in> set (task_plan state)"
      and "\<And>k. agent_results state k \<noteq> None \<Longrightarrow> agent_results state' k \<noteq> None"
  shows "dependency_order state'"
  unfolding dependency_order_iff
proof (intro ballI impI)
  fix task assume t: "task \<in> set (task_plan state')" "status task = Running"
  then have "task \<in> set (task_plan state)" by (rule assms(2))
  with assms(1) t(2) have "dependencies_satisfied state task"
    by (simp add: dependency_order_iff)
  then show "dependencies_satisfied state' task"
    using assms(3) by (auto simp: dependencies_satisfied_def split: option.splits)
qed

lemma update_first_set:
  "x \<in> set (update_first P f xs) \<Longrightarrow> x \<in> set xs \<or> x \<in> f ` set xs"
  by (induction xs) (auto split: if_splits)

lemma set_status_running_tasks:
  assumes "task \<in> set (task_plan (set_status_by_id state tid st))" "status task = Running"
          "st \<noteq> Running"
  shows "task \<in> set (task_plan state)"
  using update_first_set [of task "\<lambda>t. task_id t = tid" "\<lambda>t. t\<lparr>status := st\<rparr>" "task_plan state"]
        assms
  by (auto simp: set_status_by_id_def)

lemma set_status_keeps_order:
  assumes "dependency_order state" "st \<noteq> Running"
  shows "dependency_order (set_status_by_id state tid st)"
  using assms(1)
proof (rule dependency_order_preserved)
  fix task assume "task \<in> set (task_plan (set_status_by_id state tid st))" "status task = Running"
  then show "task \<in> set (task_plan state)"
    using assms(2) by (rule set_status_running_tasks)
qed (simp add: set_status_by_id_def)

lemma dependency_order_same:
  assumes "task_plan state' = task_plan state" "agent_results state' = agent_results state"
  shows "dependency_order state' = dependency_order state"
  by (simp add: dependency_order_iff dependencies_satisfied_def assms cong: option.case_cong)

lemma add_error_keeps_order:
  "dependency_order (add_error state a b c d e f) = dependency_order state"
  by (rule dependency_order_same) (simp_all add: add_error_def)

lemma error_log_update_keeps_order:
  "dependency_order (state\<lparr>error_log := l\<rparr>) = dependency_order state"
  by (rule dependency_order_same) simp_all

lemma start_task_keeps_order:
  assumes "dependency_order state"
      and "get_next_executable_task state (get_pending_tasks state) = Some (i, task)"
  shows "dependency_order (start_task state i)"
  unfolding dependency_order_iff
proof (intro ballI impI)
  fix t assume t: "t \<in> set (task_plan (start_task state i))" "status t = Running"
  note sel = next_executable_taskD [OF assms(2)]
  from t(1) have "t = task\<lparr>status := Running\<rparr> \<or> t \<in> set (task_plan state)"
    using sel(1,2) set_update_subset_insert [of "task_plan state" i "task\<lparr>status := Running\<rparr>"]
    by (auto simp: start_task_def)
  then have "dependencies_satisfied state t"
  proof
    assume "t = task\<lparr>status := Running\<rparr>"
    with sel(4) show ?thesis by (simp add: dependencies_satisfied_def)
  next
    assume "t \<in> set (task_plan state)"
    with assms(1) t(2) show ?thesis by (simp add: dependency_order_iff)
  qed
  then show "dependencies_satisfied (start_task state i) t"
    by (simp add: dependencies_satisfied_def start_task_def cong: option.case_cong)
qed

lemma mark_task_failed_keeps_order:
  "dependency_order state \<Longrightarrow> dependency_order (mark_task_failed state tid)"
  by (simp add: mark_task_failed_def set_status_keeps_order)

lemma mark_task_completed_keeps_order:
  assumes "dependency_order state"
  shows "dependency_order (mark_task_completed state tid result)"
  using assms
proof (rule dependency_order_preserved)
  fix task assume "task \<in> set (task_plan (mark_task_completed state tid result))"
    "status task = Running"
  then show "task \<in> set (task_plan state)"
    using set_status_running_tasks [of task state tid Completed]
    by (simp add: mark_task_completed_def set_status_by_id_def)
qed (simp add: mark_task_completed_def set_status_by_id_def)

lemma executor_keeps_order:
  assumes "dependency_order state"
  shows "dependency_order (fst (agent_executor_node lower reg state))"
proof (cases "get_next_executable_task state (get_pending_tasks state)")
  case None
  with assms show ?thesis by (simp add: agent_executor_node_def Let_def)
next
  case (Some a)
  obtain i task where a: "a = (i, task)" by (cases a)
  from Some a have sel: "get_next_executable_task state (get_pending_tasks state) = Some (i, task)"
    by simp
  have r: "dependency_order (start_task state i)"
    using assms sel by (rule start_task_keeps_order)
  from sel have ne: "get_pending_tasks state \<noteq> []"
    by (auto simp: get_next_executable_task_def)
  show ?thesis
    using sel r ne
    by (auto simp: agent_executor_node_def Let_def mark_task_failed_keeps_order
          mark_task_completed_keeps_order add_error_keeps_order split: sum.splits)
qed

lemma handle_complete_keeps_order:
  assumes "dependency_order state"
  shows "dependency_order (fst (handle_complete state error))"
proof -
  let ?s = "state\<lparr>task_plan :=
       map (\<lambda>task. if status task = Pending then task\<lparr>status := Failed\<rparr> else task) (task_plan state)\<rparr>"
  have "dependency_order ?s"
    using assms by (rule dependency_order_preserved) auto
  then show ?thesis
    by (simp add: handle_complete_def Let_def add_error_keeps_order)
qed

lemma remediation_keeps_order:
  assumes "dependency_order state"
  shows "dependency_order (fst (remediation_node crit state))"
proof -
  have retry: "dependency_order (fst (handle_retry state error))" for error
    using assms
    by (simp add: handle_retry_def Let_def add_error_keeps_order error_log_update_keeps_order
          set_status_keeps_order split: option.splits)
  have replan: "dependency_order (fst (handle_replan state error))" for error
    by (simp add: handle_replan_def Let_def dependency_order_iff add_error_def)
  have continue: "dependency_order (fst (handle_continue state error))" for error
    using assms
    by (simp add: handle_continue_def Let_def add_error_keeps_order set_status_keeps_order)
  show ?thesis
    using assms retry replan continue handle_complete_keeps_order [OF assms]
    by (simp add: remediation_node_def Let_def)
qed

lemma planner_keeps_order:
  "dependency_order (fst (planner_node response state))"
  by (cases response)
     (auto simp: planner_node_def planner_failed_def add_error_def dependency_order_iff
        create_fallback_plan_def make_task_def)

lemma router_keeps_order:
  "dependency_order (fst (router_node response state)) = dependency_order state"
  by (rule dependency_order_same)
     (simp_all add: router_node_def add_error_def Let_def split: sum.splits)

lemma retry_resets_to_pending:
  assumes "task \<in> set (task_plan (fst (handle_retry state error)))"
      and "task \<notin> set (task_plan state)"
  shows "status task = Pending"
proof -
  from assms have "task \<in> set (task_plan (set_status_by_id state (e_task_id error) Pending))"
    by (auto simp: handle_retry_def Let_def add_error_def split: option.splits)
  with assms(2) show ?thesis
    using update_first_set [of task "\<lambda>t. task_id t = e_task_id error"
            "\<lambda>t. t\<lparr>status := Pending\<rparr>" "task_plan state"]
    by (auto simp: set_status_by_id_def)
qed

text \<open>
  C7, as stated, fails: the planner answers with a task whose \<open>depends_on\<close> is the
  empty string; the executor selects it and marks it running while the empty string is
  not a key of the results.
\<close>

theorem empty_dependency_runs_counterexample:
  "reachable (answering_env empty_dependency_answer)
     (start_task (planned (map make_task empty_dependency_answer)) 0) \<and>
   \<not> dependency_order_spec (start_task (planned (map make_task empty_dependency_answer)) 0)"
proof -
  let ?env = "answering_env empty_dependency_answer"
  let ?s0 = "initial_state ''query'' ''session'' :: string GraphState"
  have "reachable ?env ?s0" by (rule reachable.created)
  then have "reachable ?env (fst (planner_node (planner ?env ?s0) ?s0))"
    by (rule reachable.planned)
  then have p: "reachable ?env (planned (map make_task empty_dependency_answer))"
    by (simp add: answering_env_def planner_node_def planned_def)
  have "get_next_executable_task (planned (map make_task empty_dependency_answer))
          (get_pending_tasks (planned (map make_task empty_dependency_answer)))
        = Some (0, hd (map make_task empty_dependency_answer))"
    by (simp add: empty_dependency_answer_def make_task_def eval_state)
  with p have "reachable ?env (start_task (planned (map make_task empty_dependency_answer)) 0)"
    by (rule reachable.dispatched)
  moreover have "\<not> dependency_order_spec (start_task (planned (map make_task empty_dependency_answer)) 0)"
    by (simp add: dependency_order_spec_def empty_dependency_answer_def make_task_def eval_state)
  ultimately show ?thesis by simp
qed

text \<open>
  C7, amended: in every reachable state, also the one in which the executor has just
  marked the selected task running, every running task with a non-empty
  \<open>depends_on = X\<close> has \<open>X\<close> among the keys of the results. Every operation preserves
  this; the retry action resets a task only to pending.
\<close>

theorem running_task_has_dependency_result:
  assumes "reachable env state"
  shows "dependency_order state"
  using assms
proof (induction rule: reachable.induct)
  case (created query sid)
  show ?case by (simp add: dependency_order_def initial_state_def)
next
  case (routed state)
  then show ?case by (simp add: router_keeps_order)
next
  case (planned state)
  show ?case by (rule planner_keeps_order)
next
  case (dispatched state i task)
  then show ?case by (simp add: start_task_keeps_order)
next
  case (executed state)
  then show ?case by (simp add: executor_keeps_order)
next
  case (remediated state)
  then show ?case by (simp add: remediation_keeps_order)
qed

theorem running_task_has_dependency_result_witness:
  "reachable (answering_env chain_answer)
     (start_task (fst (agent_executor_node ascii_lower answering_registry (planned (map make_task chain_answer)))) 1) \<and>
   dependency_order
     (start_task (fst (agent_executor_node ascii_lower answering_registry (planned (map make_task chain_answer)))) 1) \<and>
   map status (task_plan
     (start_task (fst (agent_executor_node ascii_lower answering_registry (planned (map make_task chain_answer)))) 1))
     = [Completed, Running]"
proof -
  let ?env = "answering_env chain_answer"
  let ?s0 = "initial_state ''query'' ''session'' :: string GraphState"
  let ?s1 = "planned (map make_task chain_answer)"
  let ?s2 = "fst (agent_executor_node ascii_lower answering_registry ?s1)"
  have "reachable ?env ?s0" by (rule reachable.created)
  then have "reachable ?env (fst (planner_node (planner ?env ?s0) ?s0))"
    by (rule reachable.planned)
  then have "reachable ?env ?s1"
    by (simp add: answering_env_def planner_node_def planned_def)
  then have "reachable ?env (fst (agent_executor_node (lowercase ?env) (registry ?env) ?s1))"
    by (rule reachable.executed)
  then have r2: "reachable ?env ?s2"
    by (simp add: answering_env_def)
  have "get_next_executable_task ?s2 (get_pending_tasks ?s2) = Some (1, task_t2)"
    by (simp add: chain_answer_def make_task_def answering_registry_def eval_state)
  with r2 have r3: "reachable ?env (start_task ?s2 1)"
    by (rule reachable.dispatched)
  have "map status (task_plan (start_task ?s2 1)) = [Completed, Running]"
    by (simp add: chain_answer_def make_task_def answering_registry_def eval_state)
  with r3 running_task_has_dependency_result [OF r3] show ?thesis by simp
qed

section \<open>Runs of the graph\<close>

lemma placeholder_critical_iff:
  "placeholder_critical state = (\<not> no_critical_records (error_log state))"
  unfolding placeholder_critical_def critical_errors_count_def no_critical_records_def
  by simp

lemma no_critical_records_append:
  "no_critical_records (xs @ ys) = (no_critical_records xs \<and> no_critical_records ys)"
  by (simp add: no_critical_records_def)

lemma no_critical_records_Cons:
  "no_critical_records (e # es) =
     (error_type e \<noteq> ''UNRECOVERABLE_ERROR'' \<and> error_type e \<noteq> ''AUTH_FAILURE'' \<and>
      no_critical_records es)"
  by (simp add: no_critical_records_def)

lemma no_critical_records_Nil: "no_critical_records []"
  by (simp add: no_critical_records_def)

lemmas eval_critical =
  placeholder_critical_iff no_critical_records_append no_critical_records_Cons
  no_critical_records_Nil

lemmas eval_node =
  remediation_node_def determine_remediation_action_def handle_retry_def handle_replan_def
  handle_continue_def handle_complete_def router_node_def planner_node_def make_task_def

lemma run_terminal: "terminal n \<Longrightarrow> run fuel env (n, state) = Some (n, state)"
  by simp

lemma run_out_of_fuel: "\<not> terminal n \<Longrightarrow> run 0 env (n, state) = None"
  by simp

lemma run_step: "\<not> terminal n \<Longrightarrow> run (Suc fuel) env (n, state) = run fuel env (step env (n, state))"
  by simp

subsection \<open>A task that fails on every attempt\<close>

lemma retry_log_not_critical:
  assumes "etype = ''NETWORK_ERROR'' \<or> etype = ''LLM_ERROR''"
  shows "no_critical_records (retry_log msg etype n)"
  using assms by (induction n) (auto simp: eval_critical)

lemma retry_markers_retried:
  assumes "etype = ''NETWORK_ERROR'' \<or> etype = ''LLM_ERROR''"
  shows "retry_markers (retried msg etype n) ''t1'' = n"
  using assms by (induction n) (auto simp: retry_markers_def retried_def)

lemma start_of_failing_run:
  "step (failing_env single_answer msg)
     (step (failing_env single_answer msg) (Router, initial_state ''query'' ''session''))
   = (AgentExecutor, retried msg etype 0)"
  by (simp add: failing_env_def single_answer_def retried_def eval_node eval_routes eval_state)

lemma executor_fails_again:
  assumes "classify_error ascii_lower msg = etype"
  shows "fst (agent_executor_node ascii_lower (failing_registry msg) (retried msg etype n))
         = (planned [task_t1\<lparr>status := Failed\<rparr>])
             \<lparr>query_complexity := Some ''COMPLEX'',
              error_log := retry_log msg etype n @
                [\<lparr>e_task_id = ''t1'', e_agent = ''news_agent'', e_tool = ''news_query'',
                  error_type = etype, error_message = msg, retry_count = 0\<rparr>]\<rparr>"
  using assms by (simp add: retried_def eval_state)

lemma remediation_retries_again:
  assumes "etype = ''NETWORK_ERROR'' \<or> etype = ''LLM_ERROR''"
  shows "fst (remediation_node placeholder_critical
           ((planned [task_t1\<lparr>status := Failed\<rparr>])
             \<lparr>query_complexity := Some ''COMPLEX'',
              error_log := retry_log msg etype n @
                [\<lparr>e_task_id = ''t1'', e_agent = ''news_agent'', e_tool = ''news_query'',
                  error_type = etype, error_message = msg, retry_count = 0\<rparr>]\<rparr>))
         = retried msg etype (Suc n)"
  using assms retry_log_not_critical [OF assms, of msg n]
  by (auto simp: retried_def eval_node eval_critical eval_state)

lemma retry_round:
  assumes "classify_error ascii_lower msg = etype" "etype = ''NETWORK_ERROR'' \<or> etype = ''LLM_ERROR''"
  shows "step (failing_env single_answer msg)
           (step (failing_env single_answer msg) (AgentExecutor, retried msg etype n))
         = (AgentExecutor, retried msg etype (Suc n))"
proof -
  let ?env = "failing_env single_answer msg"
  let ?failed = "(planned [task_t1\<lparr>status := Failed\<rparr>])
             \<lparr>query_complexity := Some ''COMPLEX'',
              error_log := retry_log msg etype n @
                [\<lparr>e_task_id = ''t1'', e_agent = ''news_agent'', e_tool = ''news_query'',
                  error_type = etype, error_message = msg, retry_count = 0\<rparr>]\<rparr>"
  have "after_executor ?failed = Remediation"
    by (simp add: eval_routes)
  then have 1: "step ?env (AgentExecutor, retried msg etype n) = (Remediation, ?failed)"
    by (simp add: failing_env_def executor_fails_again [OF assms(1)])
  have "after_remediation placeholder_critical (retried msg etype (Suc n)) = AgentExecutor"
    using assms(2) retry_log_not_critical [OF assms(2), of msg n]
    by (auto simp: retried_def eval_routes eval_critical eval_state)
  then have 2: "step ?env (Remediation, ?failed) = (AgentExecutor, retried msg etype (Suc n))"
    by (simp add: failing_env_def remediation_retries_again [OF assms(2)])
  from 1 2 show ?thesis by simp
qed

lemma failing_run:
  assumes "classify_error ascii_lower msg = etype" "etype = ''NETWORK_ERROR'' \<or> etype = ''LLM_ERROR''"
  shows "(step (failing_env single_answer msg) ^^ (2 * n + 2)) (Router, initial_state ''query'' ''session'')
         = (AgentExecutor, retried msg etype n)"
proof (induction n)
  case 0
  show ?case by (simp add: numeral_2_eq_2 start_of_failing_run del: step.simps)
next
  case (Suc n)
  then show ?case by (simp add: retry_round [OF assms] del: step.simps)
qed

lemma classify_timeout: "classify_error ascii_lower ''Connection timeout'' = ''NETWORK_ERROR''"
  by (simp add: eval_classify)

lemma classify_parsing: "classify_error ascii_lower ''Response parsing failed'' = ''LLM_ERROR''"
  by (simp add: eval_classify)

text \<open>
  C2 fails on the code. The plan has one task and its agent raises on every call, with a
  message classified NETWORK_ERROR or one classified LLM_ERROR. Every failure appends a
  fresh record with \<open>retry_count = 0\<close>, which is the record the policy reads, so the
  bounds \<open>retry_count < 3\<close> and \<open>retry_count < 2\<close> never stop the retries: after
  \<open>2 * n + 2\<close> steps of the graph the workflow is at the executor again and the log
  holds \<open>n\<close> RETRY_ATTEMPT records of the task, for every \<open>n\<close>.
\<close>

theorem retries_are_unbounded:
  "fst ((step (failing_env single_answer ''Connection timeout'') ^^ (2 * n + 2))
          (Router, initial_state ''query'' ''session'')) = AgentExecutor \<and>
   retry_markers (snd ((step (failing_env single_answer ''Connection timeout'') ^^ (2 * n + 2))
          (Router, initial_state ''query'' ''session''))) ''t1'' = n \<and>
   fst ((step (failing_env single_answer ''Response parsing failed'') ^^ (2 * n + 2))
          (Router, initial_state ''query'' ''session'')) = AgentExecutor \<and>
   retry_markers (snd ((step (failing_env single_answer ''Response parsing failed'') ^^ (2 * n + 2))
          (Router, initial_state ''query'' ''session''))) ''t1'' = n"
proof -
  have t: "(step (failing_env single_answer ''Connection timeout'') ^^ (2 * n + 2))
             (Router, initial_state ''query'' ''session'')
           = (AgentExecutor, retried ''Connection timeout'' ''NETWORK_ERROR'' n)"
    by (rule failing_run [OF classify_timeout]) simp
  have p: "(step (failing_env single_answer ''Response parsing failed'') ^^ (2 * n + 2))
             (Router, initial_state ''query'' ''session'')
           = (AgentExecutor, retried ''Response parsing failed'' ''LLM_ERROR'' n)"
    by (rule failing_run [OF classify_parsing]) simp
  have tm: "retry_markers (retried ''Connection timeout'' ''NETWORK_ERROR'' n) ''t1'' = n"
    by (rule retry_markers_retried) simp
  have pm: "retry_markers (retried ''Response parsing failed'' ''LLM_ERROR'' n) ''t1'' = n"
    by (rule retry_markers_retried) simp
  show ?thesis
    by (simp only: t p tm pm fst_conv snd_conv simp_thms)
qed

subsection \<open>A task blocked by a failed predecessor\<close>

lemma skip_log_last:
  assumes "classify_error ascii_lower msg = ''UNKNOWN_ERROR''"
  shows "skip_log msg n \<noteq> []"
    and "e_task_id (last (skip_log msg n)) = ''t1''"
    and "retry_count (last (skip_log msg n)) = 0"
    and "error_type (last (skip_log msg n)) = ''UNKNOWN_ERROR'' \<or>
         error_type (last (skip_log msg n)) = ''TASK_SKIPPED''"
  using assms by (cases n; simp)+

lemma skip_log_not_critical:
  assumes "classify_error ascii_lower msg = ''UNKNOWN_ERROR''"
  shows "no_critical_records (skip_log msg n)"
  using assms by (induction n) (simp_all add: eval_critical)

lemma start_of_blocked_run:
  "step (failing_env chain_answer msg)
     (step (failing_env chain_answer msg)
        (step (failing_env chain_answer msg) (Router, initial_state ''query'' ''session'')))
   = (Remediation, blocked msg 0)"
  by (simp add: failing_env_def chain_answer_def blocked_def eval_node eval_routes eval_state
        eval_classify)

lemma blocked_remediation_step:
  assumes "classify_error ascii_lower msg = ''UNKNOWN_ERROR''"
  shows "step (failing_env chain_answer msg) (Remediation, blocked msg n)
         = (AgentExecutor, blocked msg (Suc n))"
proof -
  note l = skip_log_last [OF assms, of n] and c = skip_log_not_critical [OF assms, of n]
  have r: "fst (remediation_node placeholder_critical (blocked msg n)) = blocked msg (Suc n)"
    using l c by (auto simp: blocked_def eval_node eval_critical eval_state)
  have "after_remediation placeholder_critical (blocked msg (Suc n)) = AgentExecutor"
    using c by (simp add: blocked_def eval_routes eval_critical eval_state)
  with r show ?thesis by (simp add: failing_env_def)
qed

lemma blocked_executor_step:
  assumes "classify_error ascii_lower msg = ''UNKNOWN_ERROR''"
  shows "step (failing_env chain_answer msg) (AgentExecutor, blocked msg n)
         = (Remediation, blocked msg n)"
proof -
  have "exhausted_or_blocked (blocked msg n)"
    by (simp add: exhausted_or_blocked_def has_unsatisfied_dependency_def blocked_def eval_state)
  then have e: "fst (agent_executor_node ascii_lower (failing_registry msg) (blocked msg n)) = blocked msg n"
    by (simp add: blocked_executor_noop)
  have "after_executor (blocked msg n) = Remediation"
    using skip_log_last [OF assms, of n] by (simp add: blocked_def eval_routes)
  with e show ?thesis by (simp add: failing_env_def)
qed

lemma blocked_run_never_ends:
  assumes "classify_error ascii_lower msg = ''UNKNOWN_ERROR''"
  shows "run fuel (failing_env chain_answer msg) (Remediation, blocked msg n) = None \<and>
         run fuel (failing_env chain_answer msg) (AgentExecutor, blocked msg n) = None"
proof (induction fuel arbitrary: n)
  case 0
  show ?case by (simp add: terminal_def)
next
  case (Suc fuel)
  have "run (Suc fuel) (failing_env chain_answer msg) (Remediation, blocked msg n)
        = run fuel (failing_env chain_answer msg) (AgentExecutor, blocked msg (Suc n))"
    by (simp add: run_step terminal_def blocked_remediation_step [OF assms]
          del: run.simps step.simps)
  moreover have "run (Suc fuel) (failing_env chain_answer msg) (AgentExecutor, blocked msg n)
        = run fuel (failing_env chain_answer msg) (Remediation, blocked msg n)"
    by (simp add: run_step terminal_def blocked_executor_step [OF assms]
          del: run.simps step.simps)
  ultimately show ?case using Suc.IH by simp
qed

lemma classify_boom: "classify_error ascii_lower ''boom'' = ''UNKNOWN_ERROR''"
  by (simp add: eval_classify)

text \<open>
  C6 fails on the code. The plan is a task and a second task that depends on it; the
  agent raises a message classified UNKNOWN_ERROR. The first task fails, remediation
  decides \<open>continue\<close> and appends a TASK_SKIPPED record with \<open>retry_count = 0\<close>; the
  executor then finds no ready task, the routing reads the TASK_SKIPPED record as a fresh
  error, remediation decides \<open>continue\<close> again because the second task is still
  pending, and so on: the workflow never reaches the answer generator or the fallback
  node, whatever the number of steps.
\<close>

theorem blocked_workflow_never_terminates:
  "invoke fuel (failing_env chain_answer ''boom'') ''query'' ''session'' = None"
proof -
  let ?env = "failing_env chain_answer ''boom''"
  let ?c0 = "(Router, initial_state ''query'' ''session'' :: string GraphState)"
  obtain s1 where a: "step ?env ?c0 = (Planner, s1)"
    by (simp add: failing_env_def eval_node eval_routes Let_def)
  obtain s2 where b: "step ?env (Planner, s1) = (AgentExecutor, s2)"
    by (simp add: Let_def)
  have c: "step ?env (AgentExecutor, s2) = (Remediation, blocked ''boom'' 0)"
    using start_of_blocked_run [of "''boom''"] by (simp only: a b)
  have loop: "run k ?env (Remediation, blocked ''boom'' 0) = None" for k
    by (simp only: blocked_run_never_ends [OF classify_boom])
  consider "fuel = 0" | "fuel = 1" | "fuel = 2" | k where "fuel = Suc (Suc (Suc k))"
    by (metis One_nat_def Suc_1 not0_implies_Suc)
  then show ?thesis
  proof cases
    case 1
    then show ?thesis by (simp add: invoke_def terminal_def)
  next
    case 2
    then show ?thesis by (simp add: invoke_def terminal_def a del: step.simps)
  next
    case 3
    then show ?thesis
      by (simp add: invoke_def terminal_def a b numeral_2_eq_2 del: step.simps)
  next
    case 4
    then show ?thesis
      by (simp add: invoke_def terminal_def a b c loop del: step.simps run.simps)
         (simp add: run_step terminal_def a b c loop del: step.simps run.simps)
  qed
qed

subsection \<open>A failure that the specification answers with a replan\<close>

text \<open>
  C1 fails on the code. The plan has two tasks and the agent raises
  \<open>Invalid inputs for news query\<close> on the first: after three steps the workflow is at
  the remediation node with a fresh INVALID_INPUT error, two tasks and no critical error,
  the state in which the specified policy decides REPLAN. The code does not clear the
  task list and goes on to the executor. The planner never follows the remediation node,
  whatever the state and the critical-error predicate: the routing function reads the
  record that the remediation node has just appended.
\<close>

theorem planner_never_follows_remediation:
  "after_remediation crit (fst (remediation_node crit state)) \<noteq> Planner \<and>
   (step (failing_env chain_answer ''Invalid inputs for news query'') ^^ 3)
      (Router, initial_state ''query'' ''session'')
     = (Remediation, blocked ''Invalid inputs for news query'' 0) \<and>
   error_type (last (error_log (blocked ''Invalid inputs for news query'' 0))) = ''INVALID_INPUT'' \<and>
   retry_count (last (error_log (blocked ''Invalid inputs for news query'' 0))) = 0 \<and>
   length (task_plan (blocked ''Invalid inputs for news query'' 0)) = 2 \<and>
   \<not> placeholder_critical (blocked ''Invalid inputs for news query'' 0) \<and>
   fst (step (failing_env chain_answer ''Invalid inputs for news query'')
          (Remediation, blocked ''Invalid inputs for news query'' 0)) = AgentExecutor \<and>
   map status (task_plan (snd (step (failing_env chain_answer ''Invalid inputs for news query'')
          (Remediation, blocked ''Invalid inputs for news query'' 0)))) = [Failed, Pending]"
proof -
  let ?env = "failing_env chain_answer ''Invalid inputs for news query''"
  let ?s = "blocked ''Invalid inputs for news query'' 0"
  have c: "classify_error ascii_lower ''Invalid inputs for news query'' = ''INVALID_INPUT''"
    by (simp add: eval_classify)
  have 1: "after_remediation crit (fst (remediation_node crit state)) \<noteq> Planner"
    using route_after_remediation_not_replan [of crit state] planner_only_after_replan
    by blast
  have 2: "(step ?env ^^ 3) (Router, initial_state ''query'' ''session'') = (Remediation, ?s)"
    by (simp add: numeral_3_eq_3 start_of_blocked_run del: step.simps)
  have 3: "error_type (last (error_log ?s)) = ''INVALID_INPUT'' \<and>
           retry_count (last (error_log ?s)) = 0 \<and> length (task_plan ?s) = 2 \<and>
           \<not> placeholder_critical ?s"
    by (simp add: blocked_def c eval_critical eval_state)
  have 4: "fst (step ?env (Remediation, ?s)) = AgentExecutor \<and>
           map status (task_plan (snd (step ?env (Remediation, ?s)))) = [Failed, Pending]"
    by (simp add: blocked_def failing_env_def c eval_node eval_routes eval_critical eval_state)
  from 1 2 3 4 show ?thesis by (simp only: simp_thms)
qed

end
